theory Spec2Isabelle
  imports Complex_Main
begin

section \<open>A circle orbiting in a circle, with a fading trail\<close>

text \<open>
  The notebook \<^verbatim>\<open>post.ipynb\<close> is a linear script: it fixes \<^verbatim>\<open>n_frames\<close> and
  \<^verbatim>\<open>n_trails\<close>, samples a circle, creates one head marker and \<^verbatim>\<open>n_trails\<close> trail
  markers on an axes, and hands the two callbacks \<^verbatim>\<open>init\<close> and \<^verbatim>\<open>update\<close> to
  \<^verbatim>\<open>FuncAnimation\<close>. The embedding below follows the cells in their order.

  Python integers are \<^typ>\<open>int\<close>. The float64 samples are idealised as \<^typ>\<open>real\<close>:
  rounding is not modelled. Every \<^verbatim>\<open>raise\<close> is the \<open>Inl\<close> branch of a sum.
\<close>

datatype error = ValueError | IndexError

subsection \<open>The trajectory: \<^verbatim>\<open>t = np.linspace(0, 10, n_frames)\<close>, \<^verbatim>\<open>x = np.sin(t)\<close>, \<^verbatim>\<open>y = np.cos(t)\<close>\<close>

text \<open>
  \<^verbatim>\<open>np.linspace(start, stop, num)\<close> with the default \<^verbatim>\<open>endpoint=True\<close>: a negative
  \<^verbatim>\<open>num\<close> raises \<^verbatim>\<open>ValueError\<close>; otherwise, with \<^verbatim>\<open>div = num - 1\<close>, sample \<open>k\<close> is
  \<^verbatim>\<open>start + k * step\<close> where \<^verbatim>\<open>step = (stop - start) / div\<close> when \<^verbatim>\<open>div > 0\<close>, and
  \<^verbatim>\<open>start + k * (stop - start)\<close> when there is at most one sample.
\<close>

definition linspace :: "real \<Rightarrow> real \<Rightarrow> int \<Rightarrow> error + real list" where
  "linspace start stop num =
     (if num < 0 then Inl ValueError
      else let n = nat num; d = n - 1; delta = stop - start
           in Inr (map (\<lambda>k. start + real k * (if 0 < d then delta / real d else delta))
                     [0..<n]))"

definition trajectory :: "int \<Rightarrow> error + (real list \<times> real list)" where
  "trajectory n_frames =
     (case linspace 0 10 n_frames of
        Inl e \<Rightarrow> Inl e
      | Inr t \<Rightarrow> Inr (map sin t, map cos t))"

text \<open>
  Subscripting an array with a Python integer: an index in \<open>[0, len)\<close> reads that
  element, an index in \<open>[-len, 0)\<close> counts from the end, anything else raises
  \<^verbatim>\<open>IndexError\<close>.
\<close>

definition getitem :: "'a list \<Rightarrow> int \<Rightarrow> error + 'a" where
  "getitem a k =
     (let n = int (length a)
      in if 0 \<le> k \<and> k < n then Inr (a ! nat k)
         else if - n \<le> k \<and> k < 0 then Inr (a ! nat (n + k))
         else Inl IndexError)"

subsection \<open>The markers\<close>

text \<open>
  A \<^verbatim>\<open>Line2D\<close> artist, with the properties the script sets. \<^verbatim>\<open>ax.plot([], [], ...)\<close>
  creates one with empty data; \<^verbatim>\<open>set_data\<close> with two scalars stores one sample.
  The artists live on the axes in creation order: an artist is identified by its
  position in \<open>lines\<close>, and \<open>pt\<close> and \<open>trails\<close> hold such references, as the
  script's variables of these names do.
\<close>

record line2d =
  xdata :: "real list"
  ydata :: "real list"
  linestyle :: string
  marker :: string
  ms :: real
  alpha :: "real option"
  color :: string
  zorder :: int

record figure =
  lines :: "line2d list"
  pt :: nat
  trails :: "nat list"

definition undrawn :: "line2d \<Rightarrow> bool" where
  "undrawn l \<longleftrightarrow> xdata l = [] \<and> ydata l = []"

definition drawn :: "line2d \<Rightarrow> bool" where
  "drawn l \<longleftrightarrow> \<not> undrawn l"

definition plot :: "line2d \<Rightarrow> line2d list \<Rightarrow> nat \<times> line2d list" where
  "plot l ls = (length ls, ls @ [l])"

definition head_line :: line2d where
  "head_line = \<lparr>xdata = [], ydata = [], linestyle = ''none'', marker = ''o'', ms = 15,
                 alpha = None, color = ''r'', zorder = 2\<rparr>"

definition trail_line :: "real \<Rightarrow> line2d" where
  "trail_line a = \<lparr>xdata = [], ydata = [], linestyle = ''none'', marker = ''o'', ms = 6,
                    alpha = Some a, color = ''w'', zorder = - 1000\<rparr>"

text \<open>
  The loop \<^verbatim>\<open>for i, alpha in enumerate(np.linspace(1.0, 0, n_trails))\<close>: one new artist
  per opacity, appended to \<^verbatim>\<open>trails\<close>.
\<close>

fun make_trails :: "real list \<Rightarrow> line2d list \<Rightarrow> nat list \<Rightarrow> line2d list \<times> nat list" where
  "make_trails [] ls ts = (ls, ts)"
| "make_trails (a # as) ls ts =
     (case plot (trail_line a) ls of (l, ls') \<Rightarrow> make_trails as ls' (ts @ [l]))"

definition create_markers :: "int \<Rightarrow> error + figure" where
  "create_markers n_trails =
     (case plot head_line [] of (p, ls) \<Rightarrow>
        (case linspace 1 0 n_trails of
           Inl e \<Rightarrow> Inl e
         | Inr alphas \<Rightarrow>
             (case make_trails alphas ls [] of
                (ls', ts) \<Rightarrow> Inr \<lparr>lines = ls', pt = p, trails = ts\<rparr>)))"

subsection \<open>The callbacks \<^verbatim>\<open>init\<close> and \<^verbatim>\<open>update\<close>\<close>

definition set_data :: "nat \<Rightarrow> real list \<Rightarrow> real list \<Rightarrow> figure \<Rightarrow> figure" where
  "set_data a xd yd f = f\<lparr>lines := (lines f)[a := (lines f ! a)\<lparr>xdata := xd, ydata := yd\<rparr>]\<rparr>"

definition init :: "figure \<Rightarrow> nat list \<times> figure" where
  "init f =
     (let f1 = set_data (pt f) [] [] f;
          f2 = fold (\<lambda>trail. set_data trail [] []) (trails f1) f1
      in (pt f2 # trails f2, f2))"

text \<open>
  The loop of \<^verbatim>\<open>update\<close> over \<^verbatim>\<open>zip(range(len(trails))[::-1], trails)\<close>: a pair whose
  source index \<^verbatim>\<open>ix + j\<close> is negative is passed over by \<^verbatim>\<open>continue\<close>; any other pair
  subscripts \<^verbatim>\<open>x\<close> and \<^verbatim>\<open>y\<close> and stores the sample in the trail.
\<close>

fun update_trails ::
  "real list \<Rightarrow> real list \<Rightarrow> int \<Rightarrow> (nat \<times> nat) list \<Rightarrow> figure \<Rightarrow> error + figure" where
  "update_trails x y ix [] f = Inr f"
| "update_trails x y ix ((j, trail) # rest) f =
     (if ix + int j < 0 then update_trails x y ix rest f
      else case getitem x (ix + int j) of
             Inl e \<Rightarrow> Inl e
           | Inr xv \<Rightarrow>
               (case getitem y (ix + int j) of
                  Inl e \<Rightarrow> Inl e
                | Inr yv \<Rightarrow> update_trails x y ix rest (set_data trail [xv] [yv] f)))"

definition update ::
  "real list \<Rightarrow> real list \<Rightarrow> int \<Rightarrow> int \<Rightarrow> figure \<Rightarrow> error + (nat list \<times> figure)" where
  "update x y n_trails i f =
     (let ix = i - n_trails
      in case getitem x i of
           Inl e \<Rightarrow> Inl e
         | Inr xv \<Rightarrow>
             (case getitem y i of
                Inl e \<Rightarrow> Inl e
              | Inr yv \<Rightarrow>
                  (case update_trails x y ix (zip (rev [0..<length (trails f)]) (trails f))
                          (set_data (pt f) [xv] [yv] f) of
                     Inl e \<Rightarrow> Inl e
                   | Inr f' \<Rightarrow> Inr (pt f' # trails f', f'))))"

subsection \<open>The driver: \<^verbatim>\<open>FuncAnimation(fig, update, n_frames, init_func=init)\<close>\<close>

text \<open>
  With an integer \<^verbatim>\<open>frames\<close> argument the animation calls \<^verbatim>\<open>init_func\<close> once and then
  \<^verbatim>\<open>update(i)\<close> for \<open>i\<close> in \<^verbatim>\<open>range(n_frames)\<close>, in this order; each call yields one
  frame, showing the artists the callback returned.
\<close>

fun draw_frames ::
  "real list \<Rightarrow> real list \<Rightarrow> int \<Rightarrow> int list \<Rightarrow> figure \<Rightarrow> error + (line2d list list \<times> figure)" where
  "draw_frames x y n_trails [] f = Inr ([], f)"
| "draw_frames x y n_trails (i # rest) f =
     (case update x y n_trails i f of
        Inl e \<Rightarrow> Inl e
      | Inr (artists, f') \<Rightarrow>
          (case draw_frames x y n_trails rest f' of
             Inl e \<Rightarrow> Inl e
           | Inr (frames, f'') \<Rightarrow> Inr (map (\<lambda>a. lines f' ! a) artists # frames, f'')))"

definition range_py :: "int \<Rightarrow> int list" where
  "range_py n = map int [0..<nat n]"

definition animate ::
  "real list \<Rightarrow> real list \<Rightarrow> int \<Rightarrow> int \<Rightarrow> figure \<Rightarrow> error + (line2d list list \<times> figure)" where
  "animate x y n_trails n_frames f =
     (case init f of (artists, f0) \<Rightarrow> draw_frames x y n_trails (range_py n_frames) f0)"

text \<open>
  The script from its constants to one export of the animation. Both
  \<^verbatim>\<open>ani.to_html5_video()\<close> and \<^verbatim>\<open>ani.save(...)\<close> export the animation this way, each
  starting with \<^verbatim>\<open>init\<close>; the result is the list of frames and the figure as the last
  call left it.
\<close>

definition script :: "int \<Rightarrow> int \<Rightarrow> error + (line2d list list \<times> figure)" where
  "script n_frames n_trails =
     (case trajectory n_frames of
        Inl e \<Rightarrow> Inl e
      | Inr (x, y) \<Rightarrow>
          (case create_markers n_trails of
             Inl e \<Rightarrow> Inl e
           | Inr f \<Rightarrow> animate x y n_trails n_frames f))"

subsection \<open>Observations used by the properties\<close>

text \<open>
  The loop of \<^verbatim>\<open>update\<close> pairs \<^verbatim>\<open>trails[p]\<close> with \<^verbatim>\<open>j = len(trails) - 1 - p\<close>, so the
  sample it looks at for that trail is \<^verbatim>\<open>ix + j\<close> with \<^verbatim>\<open>ix = i - n_trails\<close>.
\<close>

definition source_index :: "int \<Rightarrow> int \<Rightarrow> figure \<Rightarrow> nat \<Rightarrow> int" where
  "source_index n_trails i f p = i - n_trails + int (length (trails f) - 1 - p)"

text \<open>
  A figure as the script builds it: \<^verbatim>\<open>n_trails\<close> trail references, the head and the
  trails all different artists, each of them on the axes.
\<close>

definition wf_figure :: "int \<Rightarrow> figure \<Rightarrow> bool" where
  "wf_figure n_trails f \<longleftrightarrow>
     int (length (trails f)) = n_trails \<and> distinct (pt f # trails f)
     \<and> list_all (\<lambda>a. a < length (lines f)) (pt f # trails f)"

text \<open>The trail markers in creation order (most opaque first), and a marker's data.\<close>

definition trail_slots :: "figure \<Rightarrow> line2d list" where
  "trail_slots f = map (\<lambda>t. lines f ! t) (trails f)"

definition position :: "line2d \<Rightarrow> real list \<times> real list" where
  "position l = (xdata l, ydata l)"

text \<open>What \<^verbatim>\<open>set_data(x[k], y[k])\<close> stores for an index \<open>k\<close> in range.\<close>

definition sample :: "real list \<Rightarrow> real list \<Rightarrow> nat \<Rightarrow> real list \<times> real list" where
  "sample x y k = ([x ! k], [y ! k])"

section \<open>Lemmas about the embedding\<close>

subsection \<open>What one call does\<close>

lemma getitem_in_range: "0 \<le> k \<Longrightarrow> k < int (length a) \<Longrightarrow> getitem a k = Inr (a ! nat k)"
  by (simp add: getitem_def)

lemma pt_set_data [simp]: "pt (set_data a xd yd f) = pt f"
  by (simp add: set_data_def)

lemma trails_set_data [simp]: "trails (set_data a xd yd f) = trails f"
  by (simp add: set_data_def)

lemma length_lines_set_data [simp]: "length (lines (set_data a xd yd f)) = length (lines f)"
  by (simp add: set_data_def)

lemma nth_lines_set_data:
  "lines (set_data a xd yd f) ! b =
     (if b = a \<and> a < length (lines f) then (lines f ! a)\<lparr>xdata := xd, ydata := yd\<rparr>
      else lines f ! b)"
  by (cases "a < length (lines f)") (simp_all add: set_data_def nth_list_update list_update_beyond)

lemma update_trails_spec:
  assumes "distinct (map snd jts)"
    and "\<forall>(j, t) \<in> set jts. t < length (lines f)"
    and "\<forall>(j, t) \<in> set jts. ix + int j < int (length x)"
    and "length y = length x"
  shows "\<exists>f'. update_trails x y ix jts f = Inr f' \<and> pt f' = pt f \<and> trails f' = trails f
           \<and> length (lines f') = length (lines f)
           \<and> (\<forall>a. a \<notin> snd ` set jts \<longrightarrow> lines f' ! a = lines f ! a)
           \<and> (\<forall>(j, t) \<in> set jts. lines f' ! t =
                 (if ix + int j < 0 then lines f ! t
                  else (lines f ! t)\<lparr>xdata := [x ! nat (ix + int j)],
                                      ydata := [y ! nat (ix + int j)]\<rparr>))"
  using assms
proof (induction jts arbitrary: f)
  case Nil
  then show ?case by simp
next
  case (Cons jt jts)
  obtain j t where jt: "jt = (j, t)" by (cases jt)
  show ?case
  proof (cases "ix + int j < 0")
    case True
    from Cons.prems jt have
      "distinct (map snd jts)" "\<forall>(j, t) \<in> set jts. t < length (lines f)"
      "\<forall>(j, t) \<in> set jts. ix + int j < int (length x)" by auto
    from Cons.IH[OF this Cons.prems(4)] obtain f' where
      f': "update_trails x y ix jts f = Inr f'" "pt f' = pt f" "trails f' = trails f"
        "length (lines f') = length (lines f)"
        "\<forall>a. a \<notin> snd ` set jts \<longrightarrow> lines f' ! a = lines f ! a"
        "\<forall>(j, t) \<in> set jts. lines f' ! t =
                 (if ix + int j < 0 then lines f ! t
                  else (lines f ! t)\<lparr>xdata := [x ! nat (ix + int j)],
                                      ydata := [y ! nat (ix + int j)]\<rparr>)"
      by blast
    have "t \<notin> snd ` set jts" using Cons.prems(1) jt by (auto simp: image_iff)
    with f' True jt show ?thesis by auto
  next
    case False
    let ?k = "ix + int j"
    let ?g = "set_data t [x ! nat ?k] [y ! nat ?k] f"
    have k: "0 \<le> ?k" "?k < int (length x)" "?k < int (length y)"
      using False Cons.prems jt by auto
    have tl: "t < length (lines f)" using Cons.prems jt by auto
    have tn: "t \<notin> snd ` set jts" using Cons.prems(1) jt by (auto simp: image_iff)
    from Cons.prems jt have
      "distinct (map snd jts)" "\<forall>(j, t) \<in> set jts. t < length (lines ?g)"
      "\<forall>(j, t) \<in> set jts. ix + int j < int (length x)" by auto
    from Cons.IH[OF this Cons.prems(4)] obtain f' where
      f': "update_trails x y ix jts ?g = Inr f'" "pt f' = pt ?g" "trails f' = trails ?g"
        "length (lines f') = length (lines ?g)"
        "\<forall>a. a \<notin> snd ` set jts \<longrightarrow> lines f' ! a = lines ?g ! a"
        "\<forall>(j, t) \<in> set jts. lines f' ! t =
                 (if ix + int j < 0 then lines ?g ! t
                  else (lines ?g ! t)\<lparr>xdata := [x ! nat (ix + int j)],
                                      ydata := [y ! nat (ix + int j)]\<rparr>)"
      by blast
    have run: "update_trails x y ix (jt # jts) f = Inr f'"
      using False k f'(1) jt by (simp add: getitem_in_range)
    have other: "\<forall>a. a \<notin> snd ` set (jt # jts) \<longrightarrow> lines f' ! a = lines f ! a"
      using f'(5) jt by (auto simp: nth_lines_set_data)
    have here: "lines f' ! t = (lines f ! t)\<lparr>xdata := [x ! nat ?k], ydata := [y ! nat ?k]\<rparr>"
      using f'(5) tn tl by (simp add: nth_lines_set_data)
    have rest: "\<forall>(j', t') \<in> set jts. lines f' ! t' =
                 (if ix + int j' < 0 then lines f ! t'
                  else (lines f ! t')\<lparr>xdata := [x ! nat (ix + int j')],
                                      ydata := [y ! nat (ix + int j')]\<rparr>)"
    proof (clarify)
      fix j' t' assume m: "(j', t') \<in> set jts"
      then have "t' \<noteq> t" using tn by (force simp: image_iff)
      then have "lines ?g ! t' = lines f ! t'" by (simp add: nth_lines_set_data)
      with f'(6) m show "lines f' ! t' =
                 (if ix + int j' < 0 then lines f ! t'
                  else (lines f ! t')\<lparr>xdata := [x ! nat (ix + int j')],
                                      ydata := [y ! nat (ix + int j')]\<rparr>)" by auto
    qed
    from run f'(2,3,4) other here rest False jt show ?thesis by auto
  qed
qed

lemma zip_rev_upt_set:
  "(j, t) \<in> set (zip (rev [0..<length ts]) ts) \<longleftrightarrow>
     (\<exists>p < length ts. j = length ts - 1 - p \<and> t = ts ! p)"
proof
  assume "(j, t) \<in> set (zip (rev [0..<length ts]) ts)"
  then obtain p where "p < length ts" "j = rev [0..<length ts] ! p" "t = ts ! p"
    by (auto simp: set_zip)
  then show "\<exists>p < length ts. j = length ts - 1 - p \<and> t = ts ! p"
    by (auto simp: rev_nth)
next
  assume "\<exists>p < length ts. j = length ts - 1 - p \<and> t = ts ! p"
  then obtain p where p: "p < length ts" "j = length ts - 1 - p" "t = ts ! p" by blast
  then have r: "rev [0..<length ts] ! p = j" by (simp add: rev_nth)
  show "(j, t) \<in> set (zip (rev [0..<length ts]) ts)"
    by (subst in_set_zip) (rule exI[of _ p], simp add: p r)
qed

lemma update_spec:
  assumes wf: "wf_figure n_trails f" and i: "0 \<le> i" "i < int (length x)" and xy: "length y = length x"
  shows "\<exists>f'. update x y n_trails i f = Inr (pt f # trails f, f')
           \<and> pt f' = pt f \<and> trails f' = trails f \<and> length (lines f') = length (lines f)
           \<and> lines f' ! pt f = (lines f ! pt f)\<lparr>xdata := [x ! nat i], ydata := [y ! nat i]\<rparr>
           \<and> (\<forall>p < length (trails f). lines f' ! (trails f ! p) =
                 (if source_index n_trails i f p < 0 then lines f ! (trails f ! p)
                  else (lines f ! (trails f ! p))\<lparr>xdata := [x ! nat (source_index n_trails i f p)],
                                      ydata := [y ! nat (source_index n_trails i f p)]\<rparr>))
           \<and> (\<forall>a. a \<noteq> pt f \<and> a \<notin> set (trails f) \<longrightarrow> lines f' ! a = lines f ! a)"
proof -
  let ?g = "set_data (pt f) [x ! nat i] [y ! nat i] f"
  let ?jts = "zip (rev [0..<length (trails f)]) (trails f)"
  let ?ix = "i - n_trails"
  have n: "int (length (trails f)) = n_trails" and d: "distinct (trails f)" "pt f \<notin> set (trails f)"
    and b: "pt f < length (lines f)" "\<forall>t \<in> set (trails f). t < length (lines f)"
    using wf by (auto simp: wf_figure_def list_all_iff)
  have sn: "map snd ?jts = trails ?g" by simp
  have 1: "distinct (map snd ?jts)" using d sn by simp
  have 2: "\<forall>(j, t) \<in> set ?jts. t < length (lines ?g)"
    using b by (auto dest: set_zip_rightD)
  have 3: "\<forall>(j, t) \<in> set ?jts. ?ix + int j < int (length x)"
    using i n by (auto simp: zip_rev_upt_set)
  from update_trails_spec[OF 1 2 3 xy] obtain f' where
    f': "update_trails x y ?ix ?jts ?g = Inr f'" "pt f' = pt ?g" "trails f' = trails ?g"
        "length (lines f') = length (lines ?g)"
        "\<forall>a. a \<notin> snd ` set ?jts \<longrightarrow> lines f' ! a = lines ?g ! a"
        "\<forall>(j, t) \<in> set ?jts. lines f' ! t =
                 (if ?ix + int j < 0 then lines ?g ! t
                  else (lines ?g ! t)\<lparr>xdata := [x ! nat (?ix + int j)],
                                      ydata := [y ! nat (?ix + int j)]\<rparr>)"
    by blast
  have img: "snd ` set ?jts = set (trails f)"
    using sn by (metis set_map trails_set_data)
  have run: "update x y n_trails i f = Inr (pt f # trails f, f')"
    using i xy f'(1,2,3) by (simp add: update_def getitem_in_range)
  have hd: "lines f' ! pt f = (lines f ! pt f)\<lparr>xdata := [x ! nat i], ydata := [y ! nat i]\<rparr>"
    using f'(5) img d(2) b(1) by (simp add: nth_lines_set_data)
  have tr: "\<forall>p < length (trails f). lines f' ! (trails f ! p) =
                 (if source_index n_trails i f p < 0 then lines f ! (trails f ! p)
                  else (lines f ! (trails f ! p))\<lparr>xdata := [x ! nat (source_index n_trails i f p)],
                                      ydata := [y ! nat (source_index n_trails i f p)]\<rparr>)"
  proof (intro allI impI)
    fix p assume p: "p < length (trails f)"
    then have m: "(length (trails f) - 1 - p, trails f ! p) \<in> set ?jts"
      by (auto simp: zip_rev_upt_set)
    have ne: "trails f ! p \<noteq> pt f" using p d(2) by (metis nth_mem)
    then have "lines ?g ! (trails f ! p) = lines f ! (trails f ! p)"
      by (simp add: nth_lines_set_data)
    with f'(6) m show "lines f' ! (trails f ! p) =
                 (if source_index n_trails i f p < 0 then lines f ! (trails f ! p)
                  else (lines f ! (trails f ! p))\<lparr>xdata := [x ! nat (source_index n_trails i f p)],
                                      ydata := [y ! nat (source_index n_trails i f p)]\<rparr>)"
      by (auto simp: source_index_def)
  qed
  have ot: "\<forall>a. a \<noteq> pt f \<and> a \<notin> set (trails f) \<longrightarrow> lines f' ! a = lines f ! a"
    using f'(5) img by (simp add: nth_lines_set_data)
  from run f'(2,3,4) hd tr ot show ?thesis by simp
qed

lemma set_position_same:
  "position l = (a, b) \<Longrightarrow> l\<lparr>xdata := a, ydata := b\<rparr> = l"
  by (auto simp: position_def)

lemma source_index_wf:
  "wf_figure (int K) f \<Longrightarrow> p < K \<Longrightarrow> source_index (int K) i f p = i - 1 - int p"
  by (auto simp: wf_figure_def source_index_def)

lemma update_fixpoint:
  assumes wf: "wf_figure (int K) g" and xy: "length y = length x"
    and i: "0 \<le> i" "i < int (length x)"
    and hd: "position (lines g ! pt g) = sample x y (nat i)"
    and tr: "\<forall>p < K. 0 \<le> i - 1 - int p \<longrightarrow>
               position (lines g ! (trails g ! p)) = sample x y (nat (i - 1 - int p))"
  shows "update x y (int K) i g = Inr (pt g # trails g, g)"
proof -
  have n: "length (trails g) = K" using wf by (auto simp: wf_figure_def)
  from update_spec[OF wf i xy] show ?thesis
  proof (elim exE conjE, goal_cases)
    case (1 g')
    note u = 1
    have "lines g' = lines g"
    proof (rule nth_equalityI)
      show "length (lines g') = length (lines g)" by (rule u(4))
    next
      fix a assume "a < length (lines g')"
      show "lines g' ! a = lines g ! a"
      proof (cases "a = pt g")
        case True
        with u(5) hd show ?thesis by (simp add: set_position_same sample_def)
      next
        case False
        show ?thesis
        proof (cases "a \<in> set (trails g)")
          case True
          then obtain p where p: "p < K" "a = trails g ! p"
            using n by (auto simp: in_set_conv_nth)
          have s: "source_index (int K) i g p = i - 1 - int p"
            using wf p(1) by (rule source_index_wf)
          show ?thesis
          proof (cases "i - 1 - int p < 0")
            case True
            with u(6) p n s show ?thesis by simp
          next
            case False
            then have "position (lines g ! (trails g ! p)) = sample x y (nat (i - 1 - int p))"
              using tr p(1) by simp
            then have "(lines g ! (trails g ! p))\<lparr>xdata := [x ! nat (i - 1 - int p)],
                ydata := [y ! nat (i - 1 - int p)]\<rparr> = lines g ! (trails g ! p)"
              by (simp add: set_position_same sample_def)
            with False u(6) p n s show ?thesis by simp
          qed
        next
          case False
          with \<open>a \<noteq> pt g\<close> u(7) show ?thesis by simp
        qed
      qed
    qed
    with u(2,3) have "g' = g" by simp
    with u(1) show ?case by simp
  qed
qed

subsection \<open>What the animation does\<close>

lemma fold_clear_spec:
  "pt (fold (\<lambda>t. set_data t [] []) ts f) = pt f
   \<and> trails (fold (\<lambda>t. set_data t [] []) ts f) = trails f
   \<and> length (lines (fold (\<lambda>t. set_data t [] []) ts f)) = length (lines f)
   \<and> (\<forall>a. lines (fold (\<lambda>t. set_data t [] []) ts f) ! a =
         (if a \<in> set ts \<and> a < length (lines f) then (lines f ! a)\<lparr>xdata := [], ydata := []\<rparr>
          else lines f ! a))"
  by (induction ts arbitrary: f) (auto simp: nth_lines_set_data)

lemma init_spec:
  "\<exists>f'. init f = (pt f # trails f, f') \<and> pt f' = pt f \<and> trails f' = trails f
     \<and> length (lines f') = length (lines f)
     \<and> (\<forall>a. lines f' ! a =
           (if a \<in> set (pt f # trails f) \<and> a < length (lines f)
            then (lines f ! a)\<lparr>xdata := [], ydata := []\<rparr> else lines f ! a))"
proof -
  let ?f1 = "set_data (pt f) [] [] f"
  let ?f2 = "fold (\<lambda>trail. set_data trail [] []) (trails ?f1) ?f1"
  have "init f = (pt ?f2 # trails ?f2, ?f2)" by (simp add: init_def Let_def)
  moreover note fold_clear_spec[of "trails ?f1" ?f1]
  ultimately show ?thesis by (auto simp: nth_lines_set_data)
qed

lemma draw_frames_append:
  "draw_frames x y n (is @ js) f =
     (case draw_frames x y n is f of
        Inl e \<Rightarrow> Inl e
      | Inr (fr1, f1) \<Rightarrow>
          (case draw_frames x y n js f1 of
             Inl e \<Rightarrow> Inl e
           | Inr (fr2, f2) \<Rightarrow> Inr (fr1 @ fr2, f2)))"
  by (induction "is" arbitrary: f) (auto split: sum.splits prod.splits)

lemma draw_frames_spec:
  assumes wf: "wf_figure n_trails g" and xy: "length y = length x" and m: "m \<le> length x"
  shows "\<exists>frames g'. draw_frames x y n_trails (map int [0..<m]) g = Inr (frames, g')
           \<and> length frames = m
           \<and> pt g' = pt g \<and> trails g' = trails g \<and> length (lines g') = length (lines g)
           \<and> lines g' ! pt g =
               (if m = 0 then lines g ! pt g
                else (lines g ! pt g)\<lparr>xdata := [x ! (m - 1)], ydata := [y ! (m - 1)]\<rparr>)
           \<and> (\<forall>p < length (trails g). lines g' ! (trails g ! p) =
                 (if Suc p < m
                  then (lines g ! (trails g ! p))\<lparr>xdata := [x ! (m - 2 - p)], ydata := [y ! (m - 2 - p)]\<rparr>
                  else lines g ! (trails g ! p)))
           \<and> (\<forall>a. a \<noteq> pt g \<and> a \<notin> set (trails g) \<longrightarrow> lines g' ! a = lines g ! a)"
  using m
proof (induction m)
  case 0
  then show ?case by simp
next
  case (Suc m)
  have "m \<le> length x" using Suc.prems by simp
  from Suc.IH[OF this] show ?case
  proof (elim exE conjE)
    fix frames g1
    assume g1: "draw_frames x y n_trails (map int [0..<m]) g = Inr (frames, g1)"
      and fr: "length frames = m"
      and same1: "pt g1 = pt g" "trails g1 = trails g" "length (lines g1) = length (lines g)"
      and hd1: "lines g1 ! pt g =
               (if m = 0 then lines g ! pt g
                else (lines g ! pt g)\<lparr>xdata := [x ! (m - 1)], ydata := [y ! (m - 1)]\<rparr>)"
      and tr1: "\<forall>p < length (trails g). lines g1 ! (trails g ! p) =
                 (if Suc p < m
                  then (lines g ! (trails g ! p))\<lparr>xdata := [x ! (m - 2 - p)], ydata := [y ! (m - 2 - p)]\<rparr>
                  else lines g ! (trails g ! p))"
      and ot1: "\<forall>a. a \<noteq> pt g \<and> a \<notin> set (trails g) \<longrightarrow> lines g1 ! a = lines g ! a"
    have wf1: "wf_figure n_trails g1" using wf same1 by (simp add: wf_figure_def)
    have n: "int (length (trails g)) = n_trails" using wf by (simp add: wf_figure_def)
    have i: "0 \<le> int m" "int m < int (length x)" using Suc.prems by auto
    from update_spec[OF wf1 i xy] show ?thesis
    proof (elim exE conjE)
      fix g2
      assume g2: "update x y n_trails (int m) g1 = Inr (pt g1 # trails g1, g2)"
        and same2: "pt g2 = pt g1" "trails g2 = trails g1" "length (lines g2) = length (lines g1)"
        and hd2: "lines g2 ! pt g1 =
            (lines g1 ! pt g1)\<lparr>xdata := [x ! nat (int m)], ydata := [y ! nat (int m)]\<rparr>"
        and tr2: "\<forall>p < length (trails g1). lines g2 ! (trails g1 ! p) =
                 (if source_index n_trails (int m) g1 p < 0 then lines g1 ! (trails g1 ! p)
                  else (lines g1 ! (trails g1 ! p))\<lparr>xdata := [x ! nat (source_index n_trails (int m) g1 p)],
                                      ydata := [y ! nat (source_index n_trails (int m) g1 p)]\<rparr>)"
        and ot2: "\<forall>a. a \<noteq> pt g1 \<and> a \<notin> set (trails g1) \<longrightarrow> lines g2 ! a = lines g1 ! a"
      have "draw_frames x y n_trails [int m] g1 =
          Inr ([map (\<lambda>a. lines g2 ! a) (pt g1 # trails g1)], g2)"
        using g2 by simp
      then have run: "draw_frames x y n_trails (map int [0..<Suc m]) g =
          Inr (frames @ [map (\<lambda>a. lines g2 ! a) (pt g1 # trails g1)], g2)"
        using g1 by (simp add: draw_frames_append)
      have h2: "lines g2 ! pt g = (lines g1 ! pt g)\<lparr>xdata := [x ! m], ydata := [y ! m]\<rparr>"
        using hd2 same1(1) by simp
      have hd: "lines g2 ! pt g = (lines g ! pt g)\<lparr>xdata := [x ! m], ydata := [y ! m]\<rparr>"
        by (cases "m = 0") (simp_all add: h2 hd1)
      have tr: "\<forall>p < length (trails g). lines g2 ! (trails g ! p) =
                 (if Suc p < Suc m
                  then (lines g ! (trails g ! p))\<lparr>xdata := [x ! (Suc m - 2 - p)], ydata := [y ! (Suc m - 2 - p)]\<rparr>
                  else lines g ! (trails g ! p))"
      proof (intro allI impI)
        fix p assume p: "p < length (trails g)"
        have s: "source_index n_trails (int m) g1 p = int m - 1 - int p"
          using p n same1 by (simp add: source_index_def)
        have l2: "lines g2 ! (trails g ! p) =
                 (if int m - 1 - int p < 0 then lines g1 ! (trails g ! p)
                  else (lines g1 ! (trails g ! p))\<lparr>xdata := [x ! nat (int m - 1 - int p)],
                                      ydata := [y ! nat (int m - 1 - int p)]\<rparr>)"
          using tr2 p same1 s by simp
        have l1: "lines g1 ! (trails g ! p) =
                 (if Suc p < m
                  then (lines g ! (trails g ! p))\<lparr>xdata := [x ! (m - 2 - p)], ydata := [y ! (m - 2 - p)]\<rparr>
                  else lines g ! (trails g ! p))"
          using tr1 p by simp
        show "lines g2 ! (trails g ! p) =
                 (if Suc p < Suc m
                  then (lines g ! (trails g ! p))\<lparr>xdata := [x ! (Suc m - 2 - p)], ydata := [y ! (Suc m - 2 - p)]\<rparr>
                  else lines g ! (trails g ! p))"
        proof (cases "p < m")
          case True
          then have "nat (int m - 1 - int p) = Suc m - 2 - p" "\<not> int m - 1 - int p < 0" by simp_all
          with True l1 l2 show ?thesis by simp
        next
          case False
          then have "int m - 1 - int p < 0" "\<not> Suc p < m" by simp_all
          with False l1 l2 show ?thesis by simp
        qed
      qed
      have ot: "\<forall>a. a \<noteq> pt g \<and> a \<notin> set (trails g) \<longrightarrow> lines g2 ! a = lines g ! a"
        using ot1 ot2 same1 by simp
      show ?thesis
      proof (intro exI conjI)
        show "draw_frames x y n_trails (map int [0..<Suc m]) g =
          Inr (frames @ [map (\<lambda>a. lines g2 ! a) (pt g1 # trails g1)], g2)"
          by (rule run)
        show "length (frames @ [map (\<lambda>a. lines g2 ! a) (pt g1 # trails g1)]) = Suc m"
          using fr by simp
        show "pt g2 = pt g" "trails g2 = trails g" "length (lines g2) = length (lines g)"
          using same1 same2 by simp_all
        show "lines g2 ! pt g =
               (if Suc m = 0 then lines g ! pt g
                else (lines g ! pt g)\<lparr>xdata := [x ! (Suc m - 1)], ydata := [y ! (Suc m - 1)]\<rparr>)"
          using hd by simp
        show "\<forall>p < length (trails g). lines g2 ! (trails g ! p) =
                 (if Suc p < Suc m
                  then (lines g ! (trails g ! p))\<lparr>xdata := [x ! (Suc m - 2 - p)], ydata := [y ! (Suc m - 2 - p)]\<rparr>
                  else lines g ! (trails g ! p))"
          by (rule tr)
        show "\<forall>a. a \<noteq> pt g \<and> a \<notin> set (trails g) \<longrightarrow> lines g2 ! a = lines g ! a"
          by (rule ot)
      qed
    qed
  qed
qed

lemma alpha_set_data: "map alpha (lines (set_data a xd yd f)) = map alpha (lines f)"
  by (rule nth_equalityI) (simp_all add: nth_lines_set_data)

lemma alpha_fold_clear:
  "map alpha (lines (fold (\<lambda>t. set_data t [] []) ts f)) = map alpha (lines f)"
  by (induction ts arbitrary: f) (simp_all add: alpha_set_data)

lemma alpha_init: "map alpha (lines (snd (init f))) = map alpha (lines f)"
  by (simp add: init_def Let_def alpha_fold_clear alpha_set_data)

lemma alpha_update_trails:
  "update_trails x y ix jts f = Inr f' \<Longrightarrow> map alpha (lines f') = map alpha (lines f)"
proof (induction jts arbitrary: f)
  case Nil
  then show ?case by simp
next
  case (Cons jt jts)
  obtain j t where jt: "jt = (j, t)" by (cases jt)
  show ?case
  proof (cases "ix + int j < 0")
    case True
    with Cons jt show ?thesis by simp
  next
    case False
    with Cons.prems jt obtain xv yv where
      "update_trails x y ix jts (set_data t [xv] [yv] f) = Inr f'"
      by (auto split: sum.splits)
    from Cons.IH[OF this] show ?thesis by (simp add: alpha_set_data)
  qed
qed

lemma alpha_update:
  assumes "update x y n_trails i f = Inr (artists, f')"
  shows "map alpha (lines f') = map alpha (lines f)"
proof -
  from assms obtain xv yv where
    "update_trails x y (i - n_trails) (zip (rev [0..<length (trails f)]) (trails f))
       (set_data (pt f) [xv] [yv] f) = Inr f'"
    by (auto simp: update_def Let_def split: sum.splits)
  from alpha_update_trails[OF this] show ?thesis by (simp add: alpha_set_data)
qed

lemma alpha_draw_frames:
  "draw_frames x y n_trails is f = Inr (frames, f') \<Longrightarrow> map alpha (lines f') = map alpha (lines f)"
proof (induction "is" arbitrary: f frames)
  case Nil
  then show ?case by simp
next
  case (Cons i "is")
  from Cons.prems obtain artists f1 frames1 where
    u: "update x y n_trails i f = Inr (artists, f1)"
    and d: "draw_frames x y n_trails is f1 = Inr (frames1, f')"
    by (auto split: sum.splits prod.splits)
  from Cons.IH[OF d] alpha_update[OF u] show ?case by simp
qed

lemma animate_spec:
  assumes wf: "wf_figure n_trails f" and xy: "length y = length x" and m: "m \<le> length x"
  shows "\<exists>frames f'. animate x y n_trails (int m) f = Inr (frames, f')
           \<and> length frames = m
           \<and> pt f' = pt f \<and> trails f' = trails f \<and> length (lines f') = length (lines f)
           \<and> position (lines f' ! pt f) = (if m = 0 then ([], []) else sample x y (m - 1))
           \<and> (\<forall>p < length (trails f). position (lines f' ! (trails f ! p)) =
                 (if Suc p < m then sample x y (m - 2 - p) else ([], [])))
           \<and> map alpha (lines f') = map alpha (lines f)"
proof -
  have d: "distinct (trails f)" "pt f \<notin> set (trails f)"
    and b: "pt f < length (lines f)" "\<forall>t \<in> set (trails f). t < length (lines f)"
    using wf by (auto simp: wf_figure_def list_all_iff)
  from init_spec[of f] show ?thesis
  proof (elim exE conjE)
    fix g
    assume g: "init f = (pt f # trails f, g)"
      and same0: "pt g = pt f" "trails g = trails f" "length (lines g) = length (lines f)"
      and cl: "\<forall>a. lines g ! a =
           (if a \<in> set (pt f # trails f) \<and> a < length (lines f)
            then (lines f ! a)\<lparr>xdata := [], ydata := []\<rparr> else lines f ! a)"
    have wfg: "wf_figure n_trails g" using wf same0 by (simp add: wf_figure_def)
    have ag: "map alpha (lines g) = map alpha (lines f)" using alpha_init[of f] g by simp
    have pg: "position (lines g ! pt f) = ([], [])" using cl b by (simp add: position_def)
    have tg: "\<forall>p < length (trails f). position (lines g ! (trails f ! p)) = ([], [])"
      using cl b by (simp add: position_def)
    from draw_frames_spec[OF wfg xy m] show ?thesis
    proof (elim exE conjE)
      fix frames g'
      assume run: "draw_frames x y n_trails (map int [0..<m]) g = Inr (frames, g')"
        and fr: "length frames = m"
        and same1: "pt g' = pt g" "trails g' = trails g" "length (lines g') = length (lines g)"
        and hd1: "lines g' ! pt g =
               (if m = 0 then lines g ! pt g
                else (lines g ! pt g)\<lparr>xdata := [x ! (m - 1)], ydata := [y ! (m - 1)]\<rparr>)"
        and tr1: "\<forall>p < length (trails g). lines g' ! (trails g ! p) =
                 (if Suc p < m
                  then (lines g ! (trails g ! p))\<lparr>xdata := [x ! (m - 2 - p)], ydata := [y ! (m - 2 - p)]\<rparr>
                  else lines g ! (trails g ! p))"
        and ot1: "\<forall>a. a \<noteq> pt g \<and> a \<notin> set (trails g) \<longrightarrow> lines g' ! a = lines g ! a"
      show ?thesis
      proof (intro exI conjI)
        show "animate x y n_trails (int m) f = Inr (frames, g')"
          using g run by (simp add: animate_def range_py_def)
        show "length frames = m" by (rule fr)
        show "pt g' = pt f" "trails g' = trails f" "length (lines g') = length (lines f)"
          using same0 same1 by simp_all
        show "position (lines g' ! pt f) = (if m = 0 then ([], []) else sample x y (m - 1))"
          using hd1 pg same0(1) by (cases "m = 0") (simp_all add: position_def sample_def)
        show "\<forall>p < length (trails f). position (lines g' ! (trails f ! p)) =
                 (if Suc p < m then sample x y (m - 2 - p) else ([], []))"
        proof (intro allI impI)
          fix p assume p: "p < length (trails f)"
          with tr1 same0 have "lines g' ! (trails f ! p) =
                 (if Suc p < m
                  then (lines g ! (trails f ! p))\<lparr>xdata := [x ! (m - 2 - p)], ydata := [y ! (m - 2 - p)]\<rparr>
                  else lines g ! (trails f ! p))" by simp
          moreover have "position (lines g ! (trails f ! p)) = ([], [])" using tg p by simp
          ultimately show "position (lines g' ! (trails f ! p)) =
                 (if Suc p < m then sample x y (m - 2 - p) else ([], []))"
            by (cases "Suc p < m") (simp_all add: position_def sample_def)
        qed
        show "map alpha (lines g') = map alpha (lines f)"
          using alpha_draw_frames[OF run] ag by simp
      qed
    qed
  qed
qed

lemma trail_after_frames:
  assumes wf: "wf_figure (int K) f" and xy: "length y = length x"
    and i: "0 \<le> i" "i < int (length x)"
  shows "\<exists>frames f'. animate x y (int K) (i + 1) f = Inr (frames, f')
           \<and> length frames = nat i + 1
           \<and> length (trail_slots f') = K
           \<and> position (lines f' ! pt f') = sample x y (nat i)
           \<and> (\<forall>p < K. position (trail_slots f' ! p) =
                 (if int p < i then sample x y (nat (i - 1 - int p)) else ([], [])))"
proof -
  have n: "length (trails f) = K" using wf by (auto simp: wf_figure_def)
  have m: "nat i + 1 \<le> length x" "int (nat i + 1) = i + 1" using i by simp_all
  from animate_spec[OF wf xy m(1)] show ?thesis
  proof (elim exE conjE, goal_cases)
    case (1 frames f')
    note a = 1
    have an: "animate x y (int K) (i + 1) f = Inr (frames, f')" using a(1) by (simp only: m(2))
    have hd: "position (lines f' ! pt f') = sample x y (nat i)" using a(3,6) by simp
    have tr: "\<forall>p < K. position (trail_slots f' ! p) =
                 (if int p < i then sample x y (nat (i - 1 - int p)) else ([], []))"
    proof (intro allI impI)
      fix p assume p: "p < K"
      have "position (lines f' ! (trails f ! p)) =
          (if Suc p < nat i + 1 then sample x y (nat i + 1 - 2 - p) else ([], []))"
        using a(7) p n by simp
      moreover have "Suc p < nat i + 1 \<longleftrightarrow> int p < i" using i by linarith
      moreover have "int p < i \<Longrightarrow> nat i + 1 - 2 - p = nat (i - 1 - int p)" by linarith
      moreover have "trail_slots f' ! p = lines f' ! (trails f ! p)"
        using a(4) p n by (simp add: trail_slots_def)
      ultimately show "position (trail_slots f' ! p) =
                 (if int p < i then sample x y (nat (i - 1 - int p)) else ([], []))"
        by simp
    qed
    have ln: "length (trail_slots f') = K" using a(4) n by (simp add: trail_slots_def)
    show ?case by (intro exI conjI) (rule an, rule a(2), rule ln, rule hd, rule tr)
  qed
qed

lemma drawn_position: "drawn l \<longleftrightarrow> position l \<noteq> ([], [])"
  by (simp add: drawn_def undrawn_def position_def)

lemma count_prefix:
  assumes "length xs = K" and "\<forall>p < K. P (xs ! p) \<longleftrightarrow> p < n"
  shows "length (filter P xs) = min K n"
proof -
  have "{p. p < length xs \<and> P (xs ! p)} = {..<min K n}" using assms by auto
  then show ?thesis by (simp add: length_filter_conv_card)
qed

subsection \<open>The samples and the markers the script creates\<close>

lemma linspace_spec:
  "linspace a b (int n) =
     Inr (map (\<lambda>k. a + real k * (if 0 < n - 1 then (b - a) / real (n - 1) else b - a)) [0..<n])"
  by (simp add: linspace_def Let_def)

lemma linspace_0_10_nth:
  assumes "linspace 0 10 (int n) = Inr t" and "k < n"
  shows "t ! k = real k * (if 1 < n then 10 / real (n - 1) else 10)"
  using assms unfolding linspace_spec by auto

lemma linspace_length:
  assumes "linspace a b (int n) = Inr t"
  shows "length t = n"
  using assms unfolding linspace_spec by auto

lemma trajectory_linspace:
  "linspace 0 10 N = Inr t \<Longrightarrow> trajectory N = Inr (map sin t, map cos t)"
  by (simp add: trajectory_def)

text \<open>A point within \<open>d\<close> of a point of the unit circle, in each coordinate.\<close>

lemma perturbed_unit_circle:
  fixes s c a b d :: real
  assumes u: "s\<^sup>2 + c\<^sup>2 = 1" and a: "\<bar>a - s\<bar> \<le> d" and b: "\<bar>b - c\<bar> \<le> d"
  shows "\<bar>a\<^sup>2 + b\<^sup>2 - 1\<bar> \<le> 4 * d + 2 * d\<^sup>2"
proof -
  define e where "e = a - s"
  define g where "g = b - c"
  have d0: "0 \<le> d" using a by linarith
  have e: "\<bar>e\<bar> \<le> d" and g: "\<bar>g\<bar> \<le> d" using a b by (simp_all add: e_def g_def)
  have s1: "\<bar>s\<bar> \<le> 1" and c1: "\<bar>c\<bar> \<le> 1"
    using u by (metis abs_le_square_iff abs_one le_add_same_cancel1 one_power2 zero_le_power2,
        metis abs_le_square_iff abs_one le_add_same_cancel2 one_power2 zero_le_power2)
  have "a\<^sup>2 + b\<^sup>2 - 1 = 2 * s * e + e\<^sup>2 + 2 * c * g + g\<^sup>2"
    using u by (simp add: e_def g_def power2_eq_square algebra_simps)
  moreover have "\<bar>2 * s * e\<bar> \<le> 2 * d"
  proof -
    have "\<bar>s\<bar> * \<bar>e\<bar> \<le> 1 * d" using s1 e by (intro mult_mono) simp_all
    then show ?thesis by (simp add: abs_mult)
  qed
  moreover have "\<bar>2 * c * g\<bar> \<le> 2 * d"
  proof -
    have "\<bar>c\<bar> * \<bar>g\<bar> \<le> 1 * d" using c1 g by (intro mult_mono) simp_all
    then show ?thesis by (simp add: abs_mult)
  qed
  moreover have "e\<^sup>2 \<le> d\<^sup>2" "g\<^sup>2 \<le> d\<^sup>2"
    using e g d0 by (simp_all add: abs_le_square_iff[symmetric])
  moreover have "0 \<le> e\<^sup>2" "0 \<le> g\<^sup>2" by simp_all
  ultimately show ?thesis by linarith
qed

lemma make_trails_spec:
  "make_trails as ls ts = (ls @ map trail_line as, ts @ [length ls..<length ls + length as])"
proof (induction as arbitrary: ls ts)
  case Nil
  then show ?case by simp
next
  case (Cons a as)
  have u: "[length ls..<length ls + length (a # as)] =
      length ls # [Suc (length ls)..<Suc (length ls) + length as]"
    using upt_conv_Cons[of "length ls" "length ls + length (a # as)"] by simp
  have "make_trails (a # as) ls ts = make_trails as (ls @ [trail_line a]) (ts @ [length ls])"
    by (simp add: plot_def)
  also have "\<dots> = ((ls @ [trail_line a]) @ map trail_line as,
       (ts @ [length ls]) @ [Suc (length ls)..<Suc (length ls) + length as])"
    using Cons.IH[of "ls @ [trail_line a]" "ts @ [length ls]"] by simp
  also have "\<dots> = (ls @ map trail_line (a # as), ts @ [length ls..<length ls + length (a # as)])"
    by (simp only: u) simp
  finally show ?case .
qed

lemma create_markers_spec:
  "create_markers (int K) =
     Inr \<lparr>lines = head_line # map trail_line
              (map (\<lambda>k. 1 + real k * (if 0 < K - 1 then (0 - 1) / real (K - 1) else 0 - 1)) [0..<K]),
          pt = 0, trails = [1..<Suc K]\<rparr>"
  by (simp add: create_markers_def plot_def linspace_def Let_def make_trails_spec del: upt_Suc)

text \<open>A negative trail count stops the script at \<^verbatim>\<open>np.linspace\<close>; any other is a natural number.\<close>

lemma create_markers_negative: "n_trails < 0 \<Longrightarrow> create_markers n_trails = Inl ValueError"
  by (simp add: create_markers_def plot_def linspace_def)

lemma wf_create_markers:
  assumes "create_markers (int K) = Inr f"
  shows "wf_figure (int K) f"
  using assms unfolding create_markers_spec
  by (auto simp: wf_figure_def list_all_iff simp del: upt_Suc)

lemma create_markers_slots:
  assumes "create_markers (int K) = Inr f" and "linspace 1 0 (int K) = Inr alphas"
  shows "map alpha (trail_slots f) = map Some alphas"
proof -
  let ?as = "map (\<lambda>k. 1 + real k * (if 0 < K - 1 then (0 - 1) / real (K - 1) else 0 - 1)) [0..<K]"
  have a: "alphas = ?as" using assms(2) unfolding linspace_spec by simp
  have f: "f = \<lparr>lines = head_line # map trail_line ?as, pt = 0, trails = [1..<Suc K]\<rparr>"
    using assms(1) unfolding create_markers_spec by simp
  show ?thesis
  proof (rule nth_equalityI)
    show "length (map alpha (trail_slots f)) = length (map Some alphas)"
      by (simp add: a f trail_slots_def del: upt_Suc)
  next
    fix k assume "k < length (map alpha (trail_slots f))"
    then have k: "k < K" by (simp add: f trail_slots_def del: upt_Suc)
    then have "trail_slots f ! k = trail_line (?as ! k)"
      by (simp add: f trail_slots_def del: upt_Suc)
    then show "map alpha (trail_slots f) ! k = map Some alphas ! k"
      using k by (simp add: a f trail_slots_def trail_line_def del: upt_Suc)
  qed
qed

subsection \<open>A small figure: two trails\<close>

lemma create_markers_2:
  "create_markers 2 = Inr \<lparr>lines = [head_line, trail_line 1, trail_line 0], pt = 0, trails = [1, 2]\<rparr>"
  using create_markers_spec[of 2] by (simp add: upt_conv_Cons)

lemma wf_example: "wf_figure (int 2) (projr (create_markers 2))"
  by (simp add: create_markers_2 wf_figure_def)

lemma linspace_1_0_2: "linspace 1 0 2 = Inr [1, 0]"
  using linspace_spec[of 1 0 2] by (simp add: upt_conv_Cons)

lemma example_update_3:
  "update [0, 1, 0, - 1] [1, 0, - 1, 0] 2 3 (projr (create_markers 2)) =
     Inr ([0, 1, 2],
          \<lparr>lines = [head_line\<lparr>xdata := [- 1], ydata := [0]\<rparr>,
                   (trail_line 1)\<lparr>xdata := [0], ydata := [- 1]\<rparr>,
                   (trail_line 0)\<lparr>xdata := [1], ydata := [0]\<rparr>],
           pt = 0, trails = [1, 2]\<rparr>)"
  by (simp add: create_markers_2 update_def getitem_def Let_def set_data_def upt_conv_Cons
      eval_nat_numeral)

lemma example_init:
  "init (projr (create_markers 2)) = ([0, 1, 2], projr (create_markers 2))"
  by (simp add: create_markers_2 init_def Let_def set_data_def head_line_def trail_line_def
      eval_nat_numeral)

lemma example_update_0_fresh:
  "update [0, 1, 0, - 1] [1, 0, - 1, 0] 2 0 (projr (create_markers 2)) =
     Inr ([0, 1, 2],
          \<lparr>lines = [head_line\<lparr>xdata := [0], ydata := [1]\<rparr>, trail_line 1, trail_line 0],
           pt = 0, trails = [1, 2]\<rparr>)"
  by (simp add: create_markers_2 update_def getitem_def Let_def set_data_def upt_conv_Cons
      eval_nat_numeral)

lemma example_update_0_after_3:
  "update [0, 1, 0, - 1] [1, 0, - 1, 0] 2 0
     \<lparr>lines = [head_line\<lparr>xdata := [- 1], ydata := [0]\<rparr>,
              (trail_line 1)\<lparr>xdata := [0], ydata := [- 1]\<rparr>,
              (trail_line 0)\<lparr>xdata := [1], ydata := [0]\<rparr>],
      pt = 0, trails = [1, 2]\<rparr> =
     Inr ([0, 1, 2],
          \<lparr>lines = [head_line\<lparr>xdata := [0], ydata := [1]\<rparr>,
                   (trail_line 1)\<lparr>xdata := [0], ydata := [- 1]\<rparr>,
                   (trail_line 0)\<lparr>xdata := [1], ydata := [0]\<rparr>],
           pt = 0, trails = [1, 2]\<rparr>)"
  by (simp add: update_def getitem_def Let_def set_data_def upt_conv_Cons eval_nat_numeral)

subsection \<open>The notebook's constants: 128 frames and 8 trails\<close>

lemma wf_notebook: "wf_figure (int 8) (projr (create_markers 8))"
proof -
  obtain f where f: "create_markers (int 8) = Inr f" using create_markers_spec by blast
  then have "projr (create_markers 8) = f" by simp
  with wf_create_markers[OF f] show ?thesis by simp
qed

lemma notebook_trajectory:
  "\<exists>t. linspace 0 10 128 = Inr t \<and> length t = 128
       \<and> (\<forall>k < 128. t ! k = real k * (10 / 127))
       \<and> trajectory 128 = Inr (map sin t, map cos t)"
proof -
  obtain t where t: "linspace 0 10 (int 128) = Inr t" unfolding linspace_spec by blast
  have len: "length t = 128" using t by (rule linspace_length)
  have nth: "\<forall>k < 128. t ! k = real k * (10 / 127)"
    using linspace_0_10_nth[OF t] by simp
  have t': "linspace 0 10 128 = Inr t" using t by simp
  from trajectory_linspace[OF t'] len nth t' show ?thesis by blast
qed

text \<open>Two points of the circle less than a full turn apart are different.\<close>

lemma circle_distinct:
  fixes a d :: real
  assumes d: "0 < d" "d < 2 * pi"
  shows "\<not> (sin (a + d) = sin a \<and> cos (a + d) = cos a)"
proof
  assume "sin (a + d) = sin a \<and> cos (a + d) = cos a"
  then obtain n :: int where "a + d = a + 2 * pi * of_int n"
    unfolding sin_cos_eq_iff by blast
  then have e: "d = 2 * pi * of_int n" by simp
  with d(1) have "0 < 2 * pi * real_of_int n" by simp
  then have "0 < real_of_int n" by (simp add: zero_less_mult_iff)
  then have "1 \<le> n" by simp
  then have "1 \<le> real_of_int n" by simp
  then have "2 * pi * 1 \<le> 2 * pi * real_of_int n" by (intro mult_left_mono) simp_all
  with e d(2) show False by simp
qed

lemma notebook_script:
  "\<exists>t x y frames f. linspace 0 10 128 = Inr t \<and> length t = 128
      \<and> (\<forall>k < 128. t ! k = real k * (10 / 127))
      \<and> x = map sin t \<and> y = map cos t \<and> trajectory 128 = Inr (x, y)
      \<and> script 128 8 = Inr (frames, f) \<and> length frames = 128
      \<and> length (trail_slots f) = 8
      \<and> position (lines f ! pt f) = sample x y 127
      \<and> (\<forall>p < 8. position (trail_slots f ! p) = sample x y (126 - p))"
proof -
  obtain t where t: "linspace 0 10 128 = Inr t" "length t = 128"
    "\<forall>k < 128. t ! k = real k * (10 / 127)"
    "trajectory 128 = Inr (map sin t, map cos t)"
    using notebook_trajectory by blast
  let ?x = "map sin t" and ?y = "map cos t"
  obtain f0 where f0: "create_markers (int 8) = Inr f0" using create_markers_spec by blast
  then have cm: "create_markers 8 = Inr f0" by simp
  have wf0: "wf_figure (int 8) f0" using f0 by (rule wf_create_markers)
  have sc: "script 128 8 = animate ?x ?y 8 (127 + 1) f0"
    unfolding script_def t(4) cm by simp
  have xy: "length ?y = length ?x" and i: "(0::int) \<le> 127" "127 < int (length ?x)"
    using t(2) by simp_all
  from trail_after_frames[OF wf0 xy i] show ?thesis
  proof (elim exE conjE, goal_cases)
    case (1 frames f')
    have r: "script 128 8 = Inr (frames, f')" using 1(1) sc by simp
    have fr: "length frames = 128" using 1(2) by simp
    have tl: "\<forall>p < 8. position (trail_slots f' ! p) = sample ?x ?y (126 - p)"
    proof (intro allI impI)
      fix p :: nat assume p: "p < 8"
      then have "nat (127 - 1 - int p) = 126 - p" "int p < 127" by simp_all
      with 1(5) p show "position (trail_slots f' ! p) = sample ?x ?y (126 - p)" by simp
    qed
    have hd: "position (lines f' ! pt f') = sample ?x ?y 127" using 1(4) by simp
    show ?case
      by (intro exI conjI) (rule t(1), rule t(2), rule t(3), rule refl, rule refl, rule t(4),
          rule r, rule fr, rule 1(3), rule hd, rule tl)
  qed
qed

section \<open>The properties of the specification\<close>

subsection \<open>How the trail fills\<close>

text \<open>
  C1. For every frame index \<open>0 \<le> i < n_frames\<close> and trail count \<open>K\<close>, after \<^verbatim>\<open>init\<close> and
  the calls \<^verbatim>\<open>update(0)\<close>, ..., \<^verbatim>\<open>update(i)\<close> in increasing order, exactly
  \<open>max(0, min(K, i))\<close> trail markers hold data and the other trail markers are empty: the
  trail holds the samples before the head's, and at frame \<open>i\<close> there are \<open>i\<close> of them.
\<close>

theorem drawn_after_frames:
  assumes wf: "wf_figure (int K) f" and xy: "length y = length x"
    and i: "0 \<le> i" "i < int (length x)"
  shows "\<exists>frames f'. animate x y (int K) (i + 1) f = Inr (frames, f')
           \<and> int (length (filter drawn (trail_slots f'))) = max 0 (min (int K) i)
           \<and> length (filter undrawn (trail_slots f')) = K - length (filter drawn (trail_slots f'))"
proof -
  from trail_after_frames[OF wf xy i] show ?thesis
  proof (elim exE conjE, goal_cases)
    case (1 frames f')
    have "\<forall>p < K. drawn (trail_slots f' ! p) \<longleftrightarrow> p < nat i"
    proof (intro allI impI)
      fix p assume "p < K"
      then have "position (trail_slots f' ! p) =
          (if int p < i then sample x y (nat (i - 1 - int p)) else ([], []))"
        using 1(5) by simp
      moreover have "int p < i \<longleftrightarrow> p < nat i" using i by linarith
      ultimately show "drawn (trail_slots f' ! p) \<longleftrightarrow> p < nat i"
        by (simp add: drawn_position sample_def)
    qed
    with 1(3) have d: "length (filter drawn (trail_slots f')) = min K (nat i)"
      by (rule count_prefix)
    have "(\<lambda>l. \<not> drawn l) = undrawn" by (simp add: drawn_def fun_eq_iff)
    then have "length (filter drawn (trail_slots f')) + length (filter undrawn (trail_slots f')) = K"
      using sum_length_filter_compl[of drawn "trail_slots f'"] 1(3) by simp
    then have u: "length (filter undrawn (trail_slots f')) = K - length (filter drawn (trail_slots f'))"
      by simp
    have "int (min K (nat i)) = max 0 (min (int K) i)" using i by simp
    with d have d': "int (length (filter drawn (trail_slots f'))) = max 0 (min (int K) i)" by simp
    show ?case by (intro exI conjI) (rule 1(1), rule d', rule u)
  qed
qed

text \<open>Frame 1 of a four-sample circle with two trails: one trail drawn, one empty.\<close>

theorem drawn_after_frames_witness:
  "length (filter drawn (trail_slots (snd (projr (animate [0, 1, 0, - 1] [1, 0, - 1, 0] 2 (1 + 1)
      (projr (create_markers 2))))))) = 1
   \<and> length (filter undrawn (trail_slots (snd (projr (animate [0, 1, 0, - 1] [1, 0, - 1, 0] 2 (1 + 1)
      (projr (create_markers 2))))))) = 1"
proof -
  let ?f = "projr (create_markers 2)"
  have h: "length [1, 0, - 1, 0 :: real] = length [0, 1, 0, - 1 :: real]"
    "(0::int) \<le> 1" "(1::int) < int (length [0, 1, 0, - 1 :: real])" by simp_all
  from drawn_after_frames[OF wf_example h] show ?thesis
  proof (elim exE conjE, goal_cases)
    case (1 frames f')
    have s: "snd (projr (animate [0, 1, 0, - 1] [1, 0, - 1, 0] 2 (1 + 1) ?f)) = f'"
      using 1(1) by simp
    show ?case unfolding s using 1(2,3) by simp
  qed
qed

text \<open>
  The count \<open>max(0, min(K, i + 1))\<close> is not what the code leaves: in the notebook's
  animation, after \<^verbatim>\<open>init\<close> and \<^verbatim>\<open>update(0)\<close>, no trail marker holds data, while
  \<open>max(0, min(8, 0 + 1)) = 1\<close>.
\<close>

theorem drawn_after_frames_counterexample:
  "\<not> isl (animate (fst (projr (trajectory 128))) (snd (projr (trajectory 128))) 8 (0 + 1)
        (projr (create_markers 8)))
   \<and> length (filter drawn (trail_slots (snd (projr
        (animate (fst (projr (trajectory 128))) (snd (projr (trajectory 128))) 8 (0 + 1)
           (projr (create_markers 8))))))) \<noteq> nat (max 0 (min 8 (0 + 1)))
   \<and> max 0 (min 8 ((0::int) + 1)) = 1"
proof -
  let ?x = "fst (projr (trajectory 128))" and ?y = "snd (projr (trajectory 128))"
  obtain t where "length t = 128" "trajectory 128 = Inr (map sin t, map cos t)"
    using notebook_trajectory by blast
  then have t: "length t = 128" "?x = map sin t" "?y = map cos t" by simp_all
  have xy: "length ?y = length ?x" and i: "(0::int) \<le> 0" "0 < int (length ?x)"
    using t by simp_all
  from trail_after_frames[OF wf_notebook xy i] show ?thesis
  proof (elim exE conjE, goal_cases)
    case (1 frames f')
    have r: "animate ?x ?y 8 (0 + 1) (projr (create_markers 8)) = Inr (frames, f')"
      using 1(1) by simp
    have "\<forall>p < 8. undrawn (trail_slots f' ! p)"
      using 1(5) by (simp add: undrawn_def position_def)
    then have "list_all undrawn (trail_slots f')" using 1(3) by (simp add: list_all_length)
    then have "filter drawn (trail_slots f') = []"
      by (simp add: filter_empty_conv list_all_iff drawn_def)
    then show ?case unfolding r by simp
  qed
qed

subsection \<open>The notebook's animation\<close>

text \<open>
  C2. With 128 frames and 8 trails the script runs without an error and the animation
  produces exactly 128 frames. After \<^verbatim>\<open>update(127)\<close> the head holds sample 127 and all 8
  trail markers hold data: from the oldest to the newest, samples 119 to 126 of the
  trajectory, the eight samples before the head's.
\<close>

theorem script_128_frames_8_trails:
  "\<exists>x y frames f. trajectory 128 = Inr (x, y) \<and> script 128 8 = Inr (frames, f)
      \<and> length frames = 128
      \<and> position (lines f ! pt f) = sample x y 127
      \<and> length (trail_slots f) = 8 \<and> list_all drawn (trail_slots f)
      \<and> map position (rev (trail_slots f)) = map (sample x y) [119..<127]"
proof -
  from notebook_script show ?thesis
  proof (elim exE conjE, goal_cases)
    case (1 t x y frames f)
    have dr: "list_all drawn (trail_slots f)"
      using 1(9,11) by (simp add: list_all_length drawn_position sample_def)
    have "map position (rev (trail_slots f)) = map (sample x y) [119..<127]"
    proof (rule nth_equalityI)
      show "length (map position (rev (trail_slots f))) = length (map (sample x y) [119..<127])"
        using 1(9) by simp
    next
      fix j assume "j < length (map position (rev (trail_slots f)))"
      then have j: "j < 8" using 1(9) by simp
      then have "rev (trail_slots f) ! j = trail_slots f ! (7 - j)"
        using 1(9) by (simp add: rev_nth)
      moreover have "position (trail_slots f ! (7 - j)) = sample x y (126 - (7 - j))"
        using 1(11) j by simp
      moreover have "126 - (7 - j) = 119 + j" using j by simp
      moreover have "[119..<127] ! j = 119 + j" using j by (intro nth_upt) simp
      moreover have "j < length [119..<127]" using j by simp
      ultimately show "map position (rev (trail_slots f)) ! j = map (sample x y) [119..<127] ! j"
        using j 1(9) by (simp only: nth_map length_rev)
    qed
    then show ?case using 1(6,7,8,9,10) dr by (intro exI conjI)
  qed
qed

text \<open>
  The trail at frame 127 is not samples 120 to 127: the most transparent trail holds
  sample 119, a point of the circle that is none of the samples 120 to 127.
\<close>

theorem script_128_frames_8_trails_counterexample:
  "position (last (trail_slots (snd (projr (script 128 8))))) \<notin>
     set (map (sample (fst (projr (trajectory 128))) (snd (projr (trajectory 128)))) [120..<128])
   \<and> map position (rev (trail_slots (snd (projr (script 128 8))))) \<noteq>
     map (sample (fst (projr (trajectory 128))) (snd (projr (trajectory 128)))) [120..<128]"
proof -
  from notebook_script show ?thesis
  proof (elim exE conjE, goal_cases)
    case (1 t x y frames f)
    have s: "snd (projr (script 128 8)) = f" "fst (projr (trajectory 128)) = x"
      "snd (projr (trajectory 128)) = y"
      using 1(6,7) by simp_all
    have ne: "trail_slots f \<noteq> []" using 1(9) by auto
    have "last (trail_slots f) = trail_slots f ! 7" using 1(9) ne by (simp add: last_conv_nth)
    then have old: "position (last (trail_slots f)) = sample x y 119"
      using 1(11) by simp
    have smp: "sample x y k = ([sin (real k * (10 / 127))], [cos (real k * (10 / 127))])"
      if "k < 128" for k
    proof -
      have tk: "t ! k = real k * (10 / 127)" using 1(3) that by blast
      have "x ! k = sin (t ! k)" "y ! k = cos (t ! k)" using 1(2,4,5) that by simp_all
      then show ?thesis unfolding sample_def tk by simp
    qed
    have notin: "sample x y 119 \<notin> set (map (sample x y) [120..<128])"
    proof
      assume "sample x y 119 \<in> set (map (sample x y) [120..<128])"
      then have "sample x y 119 \<in> sample x y ` {120..<128}"
        by (simp only: set_map set_upt)
      then obtain k where "k \<in> {120..<128}" and k3: "sample x y 119 = sample x y k"
        by (rule imageE)
      then have k12: "120 \<le> k" "k < 128" by (simp_all only: atLeastLessThan_iff)
      note k = k12 k3
      define m where "m = k - 119"
      have km: "k = 119 + m" and m: "0 < m" "m \<le> 8" using k12 by (simp_all add: m_def)
      define a :: real where "a = 119 * (10 / 127)"
      define d :: real where "d = real m * (10 / 127)"
      have kd: "real k * (10 / 127) = a + d"
        unfolding km a_def d_def by (simp add: algebra_simps)
      have "0 < real m" "real m \<le> 8" using m by simp_all
      then have d: "0 < d" "d \<le> 8 * (10 / 127)" by (simp_all add: d_def)
      have "d < 2 * pi" using d(2) pi_ge_two by simp
      with d(1) have "\<not> (sin (a + d) = sin a \<and> cos (a + d) = cos a)" by (rule circle_distinct)
      moreover have "sin (a + d) = sin a \<and> cos (a + d) = cos a"
      proof -
        have e119: "sample x y 119 = ([sin a], [cos a])" using smp[of 119] by (simp add: a_def)
        have ek: "sample x y k = ([sin (a + d)], [cos (a + d)])"
          using smp[OF k12(2)] by (simp only: kd)
        from k3 have "([sin a], [cos a]) = ([sin (a + d)], [cos (a + d)])"
          by (simp only: e119 ek)
        then show ?thesis by simp
      qed
      ultimately show False by blast
    qed
    have a1: "position (last (trail_slots f)) \<notin> set (map (sample x y) [120..<128])"
      unfolding old by (rule notin)
    have diff: "map position (rev (trail_slots f)) \<noteq> map (sample x y) [120..<128]"
    proof
      assume e: "map position (rev (trail_slots f)) = map (sample x y) [120..<128]"
      have "last (trail_slots f) \<in> set (rev (trail_slots f))"
        using ne by simp
      then have "position (last (trail_slots f)) \<in> set (map position (rev (trail_slots f)))"
        by (simp only: set_map) (rule imageI)
      then have "position (last (trail_slots f)) \<in> set (map (sample x y) [120..<128])"
        by (simp only: e)
      with a1 show False by blast
    qed
    show ?case unfolding s by (intro conjI) (rule a1, rule diff)
  qed
qed

subsection \<open>A full trail\<close>

text \<open>
  C3. For every frame index \<open>i\<close> with \<open>K \<le> i < n_frames\<close>, from any well-formed figure,
  \<^verbatim>\<open>update(i)\<close> returns and gives data to all \<open>K\<close> trail markers. The trails are created
  from the most opaque to the most transparent and the loop pairs them with
  \<open>j = K - 1, \<dots>, 0\<close>, so the oldest-to-newest order is the reverse of creation order:
  the marker at position \<open>j\<close> of that order holds sample \<open>i - K + j\<close>.
\<close>

theorem update_full_trail:
  assumes wf: "wf_figure (int K) f" and xy: "length y = length x"
    and i: "int K \<le> i" "i < int (length x)"
  shows "\<exists>f'. update x y (int K) i f = Inr (pt f # trails f, f')
           \<and> length (trail_slots f') = K
           \<and> list_all drawn (trail_slots f')
           \<and> (\<forall>j < K. position (rev (trail_slots f') ! j) = sample x y (nat (i - int K + int j)))"
proof -
  have n: "length (trails f) = K" using wf by (auto simp: wf_figure_def)
  have i0: "0 \<le> i" using i by simp
  from update_spec[OF wf i0 i(2) xy] show ?thesis
  proof (elim exE conjE, goal_cases)
    case (1 f')
    note u = 1
    have src: "\<forall>p < K. source_index (int K) i f p = i - 1 - int p"
      using n by (simp add: source_index_def)
    have tr: "\<forall>p < K. lines f' ! (trails f ! p) =
        (lines f ! (trails f ! p))\<lparr>xdata := [x ! nat (i - 1 - int p)], ydata := [y ! nat (i - 1 - int p)]\<rparr>"
    proof (intro allI impI)
      fix p assume p: "p < K"
      then have "\<not> source_index (int K) i f p < 0" using src i by simp
      with u(6) p n src show "lines f' ! (trails f ! p) =
        (lines f ! (trails f ! p))\<lparr>xdata := [x ! nat (i - 1 - int p)], ydata := [y ! nat (i - 1 - int p)]\<rparr>"
        by simp
    qed
    show ?case
    proof (intro exI conjI)
      show "update x y (int K) i f = Inr (pt f # trails f, f')" by (rule u(1))
      show "length (trail_slots f') = K" using u(3) n by (simp add: trail_slots_def)
      show "list_all drawn (trail_slots f')"
        using tr u(3) n by (simp add: trail_slots_def list_all_length drawn_def undrawn_def)
      show "\<forall>j < K. position (rev (trail_slots f') ! j) = sample x y (nat (i - int K + int j))"
      proof (intro allI impI)
        fix j assume j: "j < K"
        have kj: "K - Suc j < K" using j by simp
        have r: "rev (trail_slots f') ! j = lines f' ! (trails f ! (K - Suc j))"
          using j u(3) n by (simp add: trail_slots_def rev_nth)
        have "int (K - Suc j) = int K - 1 - int j" using j by linarith
        then have a: "i - 1 - int (K - Suc j) = i - int K + int j" by linarith
        have "lines f' ! (trails f ! (K - Suc j)) =
            (lines f ! (trails f ! (K - Suc j)))\<lparr>xdata := [x ! nat (i - 1 - int (K - Suc j))],
               ydata := [y ! nat (i - 1 - int (K - Suc j))]\<rparr>"
          using tr kj by blast
        then show "position (rev (trail_slots f') ! j) = sample x y (nat (i - int K + int j))"
          unfolding r a by (simp add: position_def sample_def)
      qed
    qed
  qed
qed

text \<open>Frame 3 of a four-sample circle with two trails: samples 1 and 2, in this order.\<close>

theorem update_full_trail_witness:
  "length (trail_slots (snd (projr (update [0, 1, 0, - 1] [1, 0, - 1, 0] 2 3 (projr (create_markers 2)))))) = 2
   \<and> list_all drawn (trail_slots (snd (projr (update [0, 1, 0, - 1] [1, 0, - 1, 0] 2 3
        (projr (create_markers 2))))))
   \<and> position (rev (trail_slots (snd (projr (update [0, 1, 0, - 1] [1, 0, - 1, 0] 2 3
        (projr (create_markers 2)))))) ! 0) = ([1], [0])
   \<and> position (rev (trail_slots (snd (projr (update [0, 1, 0, - 1] [1, 0, - 1, 0] 2 3
        (projr (create_markers 2)))))) ! 1) = ([0], [- 1])"
proof -
  let ?f = "projr (create_markers 2)"
  have wf: "wf_figure (int 2) ?f" by (simp add: create_markers_2 wf_figure_def)
  have h: "length [1, 0, - 1, 0 :: real] = length [0, 1, 0, - 1 :: real]"
    "int 2 \<le> 3" "(3::int) < int (length [0, 1, 0, - 1 :: real])" by simp_all
  from update_full_trail[OF wf h] show ?thesis
  proof (elim exE conjE, goal_cases)
    case (1 f')
    have s: "snd (projr (update [0, 1, 0, - 1] [1, 0, - 1, 0] 2 3 ?f)) = f'"
      using 1(1) by simp
    have "position (rev (trail_slots f') ! 0) = sample [0, 1, 0, - 1] [1, 0, - 1, 0] (nat (3 - int 2 + int 0))"
      "position (rev (trail_slots f') ! 1) = sample [0, 1, 0, - 1] [1, 0, - 1, 0] (nat (3 - int 2 + int 1))"
      using 1(4) by simp_all
    then show ?case unfolding s using 1(2,3) by (simp add: sample_def)
  qed
qed

subsection \<open>The first frame\<close>

text \<open>
  C4. For every trail count \<open>K > 0\<close>, after \<^verbatim>\<open>init\<close>, the call \<^verbatim>\<open>update(0)\<close> returns, sets
  the head marker to the first sample of the trajectory and leaves all \<open>K\<close> trail
  markers without data: every source index \<open>0 - K + j\<close> with \<open>j < K\<close> is negative. The
  trajectory must have a first sample.
\<close>

theorem update_0_after_init:
  assumes K: "0 < K" and wf: "wf_figure (int K) f" and x: "x \<noteq> []" and xy: "length y = length x"
  shows "\<exists>f'. update x y (int K) 0 (snd (init f)) = Inr (pt f # trails f, f')
           \<and> position (lines f' ! pt f') = sample x y 0
           \<and> length (trail_slots f') = K
           \<and> list_all undrawn (trail_slots f')
           \<and> (\<forall>j < K. (0::int) - int K + int j < 0)"
proof -
  have d: "distinct (trails f)" "pt f \<notin> set (trails f)" and n: "length (trails f) = K"
    and b: "pt f < length (lines f)" "\<forall>t \<in> set (trails f). t < length (lines f)"
    using wf by (auto simp: wf_figure_def list_all_iff)
  from init_spec[of f] show ?thesis
  proof (elim exE conjE, goal_cases)
    case (1 g)
    have g: "snd (init f) = g" using 1(1) by simp
    have wfg: "wf_figure (int K) g" using wf 1(2,3,4) by (simp add: wf_figure_def)
    have tg: "\<forall>p < length (trails f). undrawn (lines g ! (trails f ! p))"
      using 1(5) b by (simp add: undrawn_def)
    have i: "(0::int) \<le> 0" "0 < int (length x)" using x by simp_all
    from update_spec[OF wfg i xy] show ?thesis
    proof (elim exE conjE, goal_cases)
      case (1 f')
      note u = 1
      have neg: "\<forall>p < length (trails f). source_index (int K) 0 g p < 0"
        using n \<open>trails g = trails f\<close> by (simp add: source_index_def)
      have "\<forall>p < length (trails f). lines f' ! (trails f ! p) = lines g ! (trails f ! p)"
        using u(6) neg \<open>trails g = trails f\<close> by simp
      with tg have un: "\<forall>p < length (trails f). undrawn (lines f' ! (trails f ! p))" by simp
      show ?thesis
      proof (intro exI conjI)
        show "update x y (int K) 0 (snd (init f)) = Inr (pt f # trails f, f')"
          using u(1) g \<open>pt g = pt f\<close> \<open>trails g = trails f\<close> by simp
        show "position (lines f' ! pt f') = sample x y 0"
          using u(2,5) by (simp add: position_def sample_def)
        show "length (trail_slots f') = K"
          using u(3) n \<open>trails g = trails f\<close> by (simp add: trail_slots_def)
        show "list_all undrawn (trail_slots f')"
          using un u(3) \<open>trails g = trails f\<close>
          by (simp add: trail_slots_def list_all_length)
        show "\<forall>j < K. (0::int) - int K + int j < 0" by simp
      qed
    qed
  qed
qed

text \<open>The first frame of a four-sample circle with two trails.\<close>

theorem update_0_after_init_witness:
  "position (lines (snd (projr (update [0, 1, 0] [1, 0, - 1] 2 0 (snd (init (projr (create_markers 2)))))))
      ! pt (snd (projr (update [0, 1, 0] [1, 0, - 1] 2 0 (snd (init (projr (create_markers 2)))))))) =
     ([0], [1])
   \<and> length (trail_slots (snd (projr (update [0, 1, 0] [1, 0, - 1] 2 0
          (snd (init (projr (create_markers 2)))))))) = 2
   \<and> list_all undrawn (trail_slots (snd (projr (update [0, 1, 0] [1, 0, - 1] 2 0
          (snd (init (projr (create_markers 2))))))))"
proof -
  let ?f = "projr (create_markers 2)"
  have wf: "wf_figure (int 2) ?f" by (simp add: create_markers_2 wf_figure_def)
  have h: "(0::nat) < 2" "[0, 1, 0] \<noteq> ([]::real list)"
    "length [1, 0, - 1 :: real] = length [0, 1, 0 :: real]" by simp_all
  from update_0_after_init[OF h(1) wf h(2) h(3)] show ?thesis
  proof (elim exE conjE, goal_cases)
    case (1 f')
    have s: "snd (projr (update [0, 1, 0] [1, 0, - 1] 2 0 (snd (init ?f)))) = f'"
      using 1(1) by simp
    show ?case unfolding s using 1(2,3,4) by (simp add: sample_def)
  qed
qed

subsection \<open>Negative source indices\<close>

text \<open>
  C5. For every frame index \<open>0 \<le> i < n_frames\<close>, from any well-formed figure,
  \<^verbatim>\<open>update(i)\<close> returns: no subscript raises. A trail whose source index is negative is
  passed over, so its artist is exactly what it was before the call: nothing is read
  for it, neither from the end of the trajectory nor from its first sample. A trail
  whose source index is not negative reads the trajectory at that very index, which
  lies below the length of the trajectory.
\<close>

theorem update_skips_negative:
  assumes wf: "wf_figure (int K) f" and xy: "length y = length x"
    and i: "0 \<le> i" "i < int (length x)"
  shows "\<exists>f'. update x y (int K) i f = Inr (pt f # trails f, f')
           \<and> (\<forall>p < K. source_index (int K) i f p < 0 \<longrightarrow>
                  lines f' ! (trails f ! p) = lines f ! (trails f ! p))
           \<and> (\<forall>p < K. 0 \<le> source_index (int K) i f p \<longrightarrow>
                  source_index (int K) i f p < int (length x)
                  \<and> position (lines f' ! (trails f ! p)) =
                      sample x y (nat (source_index (int K) i f p)))"
proof -
  have n: "length (trails f) = K" using wf by (auto simp: wf_figure_def)
  from update_spec[OF wf i xy] show ?thesis
  proof (elim exE conjE, goal_cases)
    case (1 f')
    note u = 1
    show ?case
    proof (intro exI conjI allI impI)
      show "update x y (int K) i f = Inr (pt f # trails f, f')" by (rule u(1))
    next
      fix p assume "p < K" "source_index (int K) i f p < 0"
      then show "lines f' ! (trails f ! p) = lines f ! (trails f ! p)"
        using u(6) n by simp
    next
      fix p assume "p < K" "0 \<le> source_index (int K) i f p"
      then show "source_index (int K) i f p < int (length x)"
        using n i by (simp add: source_index_def)
    next
      fix p assume "p < K" "0 \<le> source_index (int K) i f p"
      then show "position (lines f' ! (trails f ! p)) = sample x y (nat (source_index (int K) i f p))"
        using u(6) n by (simp add: position_def sample_def)
    qed
  qed
qed

text \<open>
  Frame 1 of a four-sample circle with two trails, on a fresh figure: the second trail has
  source index \<open>-1\<close> and stays empty, where wrapping would have stored \<open>(-1, 0)\<close> and
  clamping \<open>(0, 1)\<close>; the first trail holds sample 0.
\<close>

theorem update_skips_negative_witness:
  "lines (snd (projr (update [0, 1, 0, - 1] [1, 0, - 1, 0] 2 1 (projr (create_markers 2))))) ! 2 =
     lines (projr (create_markers 2)) ! 2
   \<and> position (lines (snd (projr (update [0, 1, 0, - 1] [1, 0, - 1, 0] 2 1
         (projr (create_markers 2))))) ! 2) = ([], [])
   \<and> position (lines (snd (projr (update [0, 1, 0, - 1] [1, 0, - 1, 0] 2 1
         (projr (create_markers 2))))) ! 1) = ([0], [1])"
proof -
  let ?f = "projr (create_markers 2)"
  have h: "length [1, 0, - 1, 0 :: real] = length [0, 1, 0, - 1 :: real]"
    "(0::int) \<le> 1" "(1::int) < int (length [0, 1, 0, - 1 :: real])" by simp_all
  from update_skips_negative[OF wf_example h] show ?thesis
  proof (elim exE conjE, goal_cases)
    case (1 f')
    have s: "snd (projr (update [0, 1, 0, - 1] [1, 0, - 1, 0] 2 1 ?f)) = f'"
      using 1(1) by simp
    have s1: "source_index (int 2) 1 ?f 1 = - 1" and s0: "source_index (int 2) 1 ?f 0 = 0"
      by (simp_all add: source_index_def create_markers_2)
    have t: "trails ?f ! 1 = 2" "trails ?f ! 0 = 1" by (simp_all add: create_markers_2)
    have a: "lines f' ! 2 = lines ?f ! 2" using 1(2)[rule_format, of 1] s1 t by simp
    have b: "position (lines f' ! 1) = sample [0, 1, 0, - 1] [1, 0, - 1, 0] 0"
      using 1(3)[rule_format, of 0] s0 t by simp
    have c: "position (lines ?f ! 2) = ([], [])"
      by (simp add: create_markers_2 position_def trail_line_def)
    show ?case unfolding s using a b c by (simp add: sample_def)
  qed
qed

subsection \<open>Calling \<^verbatim>\<open>update\<close> twice\<close>

text \<open>
  C6. For every frame index \<open>0 \<le> i < n_frames\<close>, from any well-formed figure, a second
  call \<^verbatim>\<open>update(i)\<close> right after the first returns the same artists and leaves the figure
  exactly as the first call left it, so the head and every trail have identical positions
  after each of the two calls. After \<^verbatim>\<open>init\<close> and the calls \<^verbatim>\<open>update(0)\<close>, ...,
  \<^verbatim>\<open>update(i)\<close> in increasing order these positions are a function of \<open>i\<close> and the
  trajectory alone: the head holds sample \<open>i\<close>, trail \<open>p\<close> holds sample \<open>i - 1 - p\<close> when that
  index is not negative and nothing otherwise, and calling \<^verbatim>\<open>update(i)\<close> again changes
  nothing. From another figure the positions also depend on what the figure held: a trail
  with a negative source index keeps its data.
\<close>

theorem update_twice:
  assumes wf: "wf_figure (int K) f" and xy: "length y = length x"
    and i: "0 \<le> i" "i < int (length x)"
  shows "\<exists>f1. update x y (int K) i f = Inr (pt f # trails f, f1)
           \<and> update x y (int K) i f1 = Inr (pt f # trails f, f1)
           \<and> (\<exists>frames g. animate x y (int K) (i + 1) f = Inr (frames, g)
                \<and> position (lines g ! pt g) = sample x y (nat i)
                \<and> (\<forall>p < K. position (lines g ! (trails g ! p)) =
                      (if 0 \<le> i - 1 - int p then sample x y (nat (i - 1 - int p)) else ([], [])))
                \<and> update x y (int K) i g = Inr (pt f # trails f, g))"
proof -
  have n: "length (trails f) = K" using wf by (auto simp: wf_figure_def)
  have twice: "\<exists>f1. update x y (int K) i f = Inr (pt f # trails f, f1)
           \<and> update x y (int K) i f1 = Inr (pt f # trails f, f1)"
    using update_spec[OF wf i xy]
  proof (elim exE conjE, goal_cases)
    case (1 f1)
    note u = 1
    have wf1: "wf_figure (int K) f1" using wf u(2,3,4) by (simp add: wf_figure_def)
    have hd: "position (lines f1 ! pt f1) = sample x y (nat i)"
      using u(2,5) by (simp add: position_def sample_def)
    have tr: "\<forall>p < K. 0 \<le> i - 1 - int p \<longrightarrow>
               position (lines f1 ! (trails f1 ! p)) = sample x y (nat (i - 1 - int p))"
      using u(3,6) n source_index_wf[OF wf] by (simp add: position_def sample_def)
    from update_fixpoint[OF wf1 xy i hd tr] u(1,2,3) show ?case by simp
  qed
  have m: "nat i + 1 \<le> length x" "int (nat i + 1) = i + 1" using i by simp_all
  have run: "\<exists>frames g. animate x y (int K) (i + 1) f = Inr (frames, g)
                \<and> position (lines g ! pt g) = sample x y (nat i)
                \<and> (\<forall>p < K. position (lines g ! (trails g ! p)) =
                      (if 0 \<le> i - 1 - int p then sample x y (nat (i - 1 - int p)) else ([], [])))
                \<and> update x y (int K) i g = Inr (pt f # trails f, g)"
    using animate_spec[OF wf xy m(1)]
  proof (elim exE conjE, goal_cases)
    case (1 frames g)
    note a = 1
    have wfg: "wf_figure (int K) g" using wf a(3,4,5) by (simp add: wf_figure_def)
    have hd: "position (lines g ! pt g) = sample x y (nat i)" using a(3,6) by simp
    have tr: "\<forall>p < K. position (lines g ! (trails g ! p)) =
                      (if 0 \<le> i - 1 - int p then sample x y (nat (i - 1 - int p)) else ([], []))"
    proof (intro allI impI)
      fix p assume p: "p < K"
      have "position (lines g ! (trails f ! p)) =
          (if Suc p < nat i + 1 then sample x y (nat i + 1 - 2 - p) else ([], []))"
        using a(7) p n by simp
      moreover have "Suc p < nat i + 1 \<longleftrightarrow> 0 \<le> i - 1 - int p" using i by linarith
      moreover have "0 \<le> i - 1 - int p \<Longrightarrow> nat i + 1 - 2 - p = nat (i - 1 - int p)" by linarith
      ultimately show "position (lines g ! (trails g ! p)) =
                      (if 0 \<le> i - 1 - int p then sample x y (nat (i - 1 - int p)) else ([], []))"
        using a(4) by simp
    qed
    have an: "animate x y (int K) (i + 1) f = Inr (frames, g)" using a(1) by (simp only: m(2))
    have "update x y (int K) i g = Inr (pt g # trails g, g)"
      using update_fixpoint[OF wfg xy i hd] tr by simp
    then have up: "update x y (int K) i g = Inr (pt f # trails f, g)" using a(3,4) by simp
    show ?case by (intro exI conjI) (rule an, rule hd, rule tr, rule up)
  qed
  from twice run show ?thesis by blast
qed

text \<open>Frame 1 of a four-sample circle with two trails, called twice.\<close>

theorem update_twice_witness:
  "update [0, 1, 0, - 1] [1, 0, - 1, 0] 2 1
      (snd (projr (update [0, 1, 0, - 1] [1, 0, - 1, 0] 2 1 (projr (create_markers 2))))) =
     Inr ([0, 1, 2], snd (projr (update [0, 1, 0, - 1] [1, 0, - 1, 0] 2 1 (projr (create_markers 2)))))
   \<and> update [0, 1, 0, - 1] [1, 0, - 1, 0] 2 1
      (snd (projr (animate [0, 1, 0, - 1] [1, 0, - 1, 0] 2 (1 + 1) (projr (create_markers 2))))) =
     Inr ([0, 1, 2], snd (projr (animate [0, 1, 0, - 1] [1, 0, - 1, 0] 2 (1 + 1) (projr (create_markers 2)))))
   \<and> position (lines (snd (projr (animate [0, 1, 0, - 1] [1, 0, - 1, 0] 2 (1 + 1)
         (projr (create_markers 2))))) !
       pt (snd (projr (animate [0, 1, 0, - 1] [1, 0, - 1, 0] 2 (1 + 1) (projr (create_markers 2)))))) =
     ([1], [0])"
proof -
  let ?f = "projr (create_markers 2)"
  have h: "length [1, 0, - 1, 0 :: real] = length [0, 1, 0, - 1 :: real]"
    "(0::int) \<le> 1" "(1::int) < int (length [0, 1, 0, - 1 :: real])" by simp_all
  have t: "pt ?f # trails ?f = [0, 1, 2]" by (simp add: create_markers_2)
  from update_twice[OF wf_example h] show ?thesis
  proof (elim exE conjE, goal_cases)
    case (1 f1 frames g)
    have s: "snd (projr (update [0, 1, 0, - 1] [1, 0, - 1, 0] 2 1 ?f)) = f1"
      using 1(1) by simp
    have sg: "snd (projr (animate [0, 1, 0, - 1] [1, 0, - 1, 0] 2 (1 + 1) ?f)) = g"
      using 1(3) by simp
    have a: "update [0, 1, 0, - 1] [1, 0, - 1, 0] 2 1 f1 = Inr ([0, 1, 2], f1)"
      using 1(2) t by simp
    have b: "update [0, 1, 0, - 1] [1, 0, - 1, 0] 2 1 g = Inr ([0, 1, 2], g)"
      using 1(6) t by simp
    have c: "position (lines g ! pt g) = ([1], [0])"
      using 1(4) by (simp add: sample_def)
    show ?case unfolding s sg using a b c by (intro conjI)
  qed
qed

text \<open>
  The positions after \<^verbatim>\<open>update(i)\<close> are not a function of \<open>i\<close> and the trajectory alone:
  \<^verbatim>\<open>update(0)\<close> on the figure \<^verbatim>\<open>init\<close> left has both trails empty, and \<^verbatim>\<open>update(0)\<close> on
  the figure \<^verbatim>\<open>update(3)\<close> left has them at samples 2 and 1. Both figures are well-formed.
\<close>

theorem update_twice_counterexample:
  "wf_figure 2 (snd (init (projr (create_markers 2))))
   \<and> wf_figure 2 (snd (projr (update [0, 1, 0, - 1] [1, 0, - 1, 0] 2 3 (projr (create_markers 2)))))
   \<and> map position (trail_slots (snd (projr (update [0, 1, 0, - 1] [1, 0, - 1, 0] 2 0
         (snd (init (projr (create_markers 2))))))))
       = [([], []), ([], [])]
   \<and> map position (trail_slots (snd (projr (update [0, 1, 0, - 1] [1, 0, - 1, 0] 2 0
         (snd (projr (update [0, 1, 0, - 1] [1, 0, - 1, 0] 2 3 (projr (create_markers 2)))))))))
       = [([0], [- 1]), ([1], [0])]
   \<and> map position (trail_slots (snd (projr (update [0, 1, 0, - 1] [1, 0, - 1, 0] 2 0
         (snd (init (projr (create_markers 2))))))))
       \<noteq> map position (trail_slots (snd (projr (update [0, 1, 0, - 1] [1, 0, - 1, 0] 2 0
         (snd (projr (update [0, 1, 0, - 1] [1, 0, - 1, 0] 2 3 (projr (create_markers 2)))))))))"
proof -
  have a: "snd (init (projr (create_markers 2))) = projr (create_markers 2)"
    by (simp add: example_init)
  have wa: "wf_figure 2 (projr (create_markers 2))" using wf_example by simp
  have wb: "wf_figure 2 (snd (projr (update [0, 1, 0, - 1] [1, 0, - 1, 0] 2 3 (projr (create_markers 2)))))"
    by (simp add: example_update_3 wf_figure_def)
  have pa: "map position (trail_slots (snd (projr (update [0, 1, 0, - 1] [1, 0, - 1, 0] 2 0
         (projr (create_markers 2)))))) = [([], []), ([], [])]"
    by (simp add: example_update_0_fresh trail_slots_def position_def trail_line_def)
  have pb: "map position (trail_slots (snd (projr (update [0, 1, 0, - 1] [1, 0, - 1, 0] 2 0
         (snd (projr (update [0, 1, 0, - 1] [1, 0, - 1, 0] 2 3 (projr (create_markers 2))))))))) =
       [([0], [- 1]), ([1], [0])]"
  proof -
    let ?B = "\<lparr>lines = [head_line\<lparr>xdata := [- 1], ydata := [0]\<rparr>,
              (trail_line 1)\<lparr>xdata := [0], ydata := [- 1]\<rparr>,
              (trail_line 0)\<lparr>xdata := [1], ydata := [0]\<rparr>],
      pt = 0, trails = [1, 2]\<rparr>"
    have b: "snd (projr (update [0, 1, 0, - 1] [1, 0, - 1, 0] 2 3 (projr (create_markers 2)))) = ?B"
      by (simp only: example_update_3 sum.sel snd_conv)
    have ub: "snd (projr (update [0, 1, 0, - 1] [1, 0, - 1, 0] 2 0 ?B)) =
        \<lparr>lines = [head_line\<lparr>xdata := [0], ydata := [1]\<rparr>,
                   (trail_line 1)\<lparr>xdata := [0], ydata := [- 1]\<rparr>,
                   (trail_line 0)\<lparr>xdata := [1], ydata := [0]\<rparr>],
           pt = 0, trails = [1, 2]\<rparr>"
      by (simp only: example_update_0_after_3 sum.sel snd_conv)
    show ?thesis unfolding b ub by (simp add: trail_slots_def position_def)
  qed
  show ?thesis unfolding a using wa wb pa pb by simp
qed

subsection \<open>The trajectory\<close>

text \<open>
  C7. For a frame count \<open>N > 0\<close> the trajectory is computed without an error and has
  exactly \<open>N\<close> samples in \<open>x\<close> and in \<open>y\<close>: \<open>x\<close> is the sine and \<open>y\<close> the cosine of the
  parameter \<open>t\<close>, which has \<open>N\<close> values, increases strictly, starts at 0, stays within
  \<open>[0, 10]\<close> whatever \<open>N\<close> is, and ends at 10 when there is more than one sample. The
  samples are real numbers here.
\<close>

theorem trajectory_samples:
  assumes N: "0 < N"
  shows "\<exists>t x y. linspace 0 10 N = Inr t \<and> trajectory N = Inr (x, y)
           \<and> int (length x) = N \<and> int (length y) = N \<and> int (length t) = N
           \<and> x = map sin t \<and> y = map cos t
           \<and> sorted_wrt (<) t
           \<and> (\<forall>k < length t. 0 \<le> t ! k \<and> t ! k \<le> 10)
           \<and> t ! 0 = 0 \<and> (1 < N \<longrightarrow> last t = 10)"
proof -
  have "N = int (nat N)" "0 < nat N" using N by simp_all
  then obtain n where n: "N = int n" "0 < n" by blast
  obtain t where t: "linspace 0 10 (int n) = Inr t" unfolding linspace_spec by blast
  have len: "length t = n" using t by (rule linspace_length)
  define r :: real where "r = real (n - 1)"
  define s :: real where "s = (if 1 < n then 10 / r else 10)"
  have nth: "\<And>k. k < n \<Longrightarrow> t ! k = real k * s"
    using linspace_0_10_nth[OF t] by (simp add: s_def r_def)
  have r: "0 < r" if "1 < n" using that by (simp add: r_def)
  have s: "0 < s" "r * s = 10" if "1 < n" using that r[OF that] by (simp_all add: s_def)
  have inc: "sorted_wrt (<) t"
    unfolding sorted_wrt_iff_nth_less
  proof (intro allI impI)
    fix i j assume ij: "i < j" "j < length t"
    have n1: "1 < n" using ij len by simp
    have "t ! i = real i * s" "t ! j = real j * s"
      using nth[of i] nth[of j] ij len by simp_all
    moreover have "real i * s < real j * s"
      using ij(1) s(1)[OF n1] by (intro mult_strict_right_mono) simp_all
    ultimately show "t ! i < t ! j" by simp
  qed
  have rng: "\<forall>k < length t. 0 \<le> t ! k \<and> t ! k \<le> 10"
  proof (intro allI impI)
    fix k assume k: "k < length t"
    show "0 \<le> t ! k \<and> t ! k \<le> 10"
    proof (cases "1 < n")
      case True
      have e: "t ! k = real k * s" using nth[of k] k len by simp
      have "real k \<le> r" using k len by (simp add: r_def)
      then have "real k * s \<le> r * s" using s(1)[OF True] by (intro mult_right_mono) simp_all
      then show ?thesis using e s[OF True] by simp
    next
      case False
      then have "k = 0" using k len by simp
      then show ?thesis using nth[of 0] n by simp
    qed
  qed
  have first: "t ! 0 = 0" using nth[of 0] n by simp
  have lst: "1 < N \<longrightarrow> last t = 10"
  proof
    assume "1 < N"
    then have n1: "1 < n" using n by simp
    then have "t \<noteq> []" using len by auto
    then have "last t = t ! (n - 1)" using len by (simp add: last_conv_nth)
    also have "\<dots> = r * s" using nth[of "n - 1"] n1 by (simp add: r_def)
    also have "\<dots> = 10" using s(2)[OF n1] .
    finally show "last t = 10" .
  qed
  have tr: "trajectory N = Inr (map sin t, map cos t)"
    using t n by (simp add: trajectory_def)
  show ?thesis
  proof (intro exI conjI)
    show "linspace 0 10 N = Inr t" using t n by simp
    show "trajectory N = Inr (map sin t, map cos t)" by (rule tr)
    show "int (length (map sin t)) = N" "int (length (map cos t)) = N" "int (length t) = N"
      using len n by simp_all
    show "map sin t = map sin t" "map cos t = map cos t" by simp_all
    show "sorted_wrt (<) t" by (rule inc)
    show "\<forall>k < length t. 0 \<le> t ! k \<and> t ! k \<le> 10" by (rule rng)
    show "t ! 0 = 0" by (rule first)
    show "1 < N \<longrightarrow> last t = 10" by (rule lst)
  qed
qed

text \<open>The notebook's 128 frames.\<close>

theorem trajectory_samples_witness:
  "length (fst (projr (trajectory 128))) = 128
   \<and> length (snd (projr (trajectory 128))) = 128
   \<and> fst (projr (trajectory 128)) = map sin (projr (linspace 0 10 128))
   \<and> snd (projr (trajectory 128)) = map cos (projr (linspace 0 10 128))
   \<and> sorted_wrt (<) (projr (linspace 0 10 128))
   \<and> projr (linspace 0 10 128) ! 0 = 0
   \<and> last (projr (linspace 0 10 128)) = 10"
proof -
  have h: "(0::int) < 128" by simp
  from trajectory_samples[OF h] show ?thesis
  proof (elim exE conjE, goal_cases)
    case (1 t x y)
    have s: "projr (linspace 0 10 128) = t" "fst (projr (trajectory 128)) = x"
      "snd (projr (trajectory 128)) = y"
      using 1(1,2) by simp_all
    show ?case unfolding s using 1(3-) by simp
  qed
qed

subsection \<open>Points on the unit circle\<close>

text \<open>
  C8. For every \<open>N > 0\<close>, every sample \<open>(x[k], y[k])\<close> of the trajectory lies on the unit
  circle: \<open>x[k]\<^sup>2 + y[k]\<^sup>2 = 1\<close> for the real samples of this embedding. The tolerance is
  a parameter: values within \<open>d\<close> of the exact sample in each coordinate, as rounded
  ones are for the rounding error \<open>d\<close> of the arithmetic, satisfy the equation up to
  \<open>4 d + 2 d\<^sup>2\<close>.
\<close>

theorem trajectory_unit_circle:
  assumes N: "0 < N" and tr: "trajectory N = Inr (x, y)" and k: "k < length x"
  shows "(x ! k)\<^sup>2 + (y ! k)\<^sup>2 = 1
         \<and> (\<forall>a b d. \<bar>a - x ! k\<bar> \<le> d \<and> \<bar>b - y ! k\<bar> \<le> d \<longrightarrow>
               \<bar>a\<^sup>2 + b\<^sup>2 - 1\<bar> \<le> 4 * d + 2 * d\<^sup>2)"
proof -
  from tr obtain t where t: "x = map sin t" "y = map cos t"
    by (auto simp: trajectory_def split: sum.splits)
  have kt: "k < length t" using k t by simp
  have u: "(x ! k)\<^sup>2 + (y ! k)\<^sup>2 = 1" using kt by (simp add: t)
  have "\<forall>a b d. \<bar>a - x ! k\<bar> \<le> d \<and> \<bar>b - y ! k\<bar> \<le> d \<longrightarrow>
               \<bar>a\<^sup>2 + b\<^sup>2 - 1\<bar> \<le> 4 * d + 2 * d\<^sup>2"
    using perturbed_unit_circle[OF u] by blast
  with u show ?thesis by blast
qed

text \<open>Sample 5 of the notebook's trajectory, exact and moved by a thousandth.\<close>

theorem trajectory_unit_circle_witness:
  "(fst (projr (trajectory 128)) ! 5)\<^sup>2 + (snd (projr (trajectory 128)) ! 5)\<^sup>2 = 1
   \<and> \<bar>(fst (projr (trajectory 128)) ! 5 + 1 / 1000)\<^sup>2
        + (snd (projr (trajectory 128)) ! 5 - 1 / 1000)\<^sup>2 - 1\<bar>
       \<le> 4 * (1 / 1000) + 2 * (1 / 1000)\<^sup>2"
proof -
  obtain t where t: "length t = 128" "trajectory 128 = Inr (map sin t, map cos t)"
    using notebook_trajectory by blast
  have s: "fst (projr (trajectory 128)) = map sin t" "snd (projr (trajectory 128)) = map cos t"
    using t(2) by simp_all
  have h: "(0::int) < 128" "5 < length (map sin t)" using t(1) by simp_all
  note c = trajectory_unit_circle[OF h(1) t(2) h(2)]
  have c1: "(map sin t ! 5)\<^sup>2 + (map cos t ! 5)\<^sup>2 = 1" using c by (rule conjunct1)
  have "\<bar>(map sin t ! 5 + 1 / 1000) - map sin t ! 5\<bar> \<le> 1 / 1000
        \<and> \<bar>(map cos t ! 5 - 1 / 1000) - map cos t ! 5\<bar> \<le> 1 / 1000" by simp
  with c have c2: "\<bar>(map sin t ! 5 + 1 / 1000)\<^sup>2 + (map cos t ! 5 - 1 / 1000)\<^sup>2 - 1\<bar>
       \<le> 4 * (1 / 1000) + 2 * (1 / 1000)\<^sup>2" by blast
  show ?thesis unfolding s using c1 c2 by (rule conjI)
qed

subsection \<open>What a call leaves alone\<close>

text \<open>
  C9. For every frame index \<open>i\<close>, \<^verbatim>\<open>update(i)\<close> leaves every trail whose source index is
  negative completely unchanged: it keeps the data it held before the call and is not
  reset to empty. The references and the number of artists stay the same, and an artist
  that differs after the call is the head or a trail with a non-negative source index.
\<close>

theorem update_frame:
  assumes wf: "wf_figure (int K) f" and xy: "length y = length x"
    and i: "0 \<le> i" "i < int (length x)"
  shows "\<exists>f'. update x y (int K) i f = Inr (pt f # trails f, f')
           \<and> pt f' = pt f \<and> trails f' = trails f \<and> length (lines f') = length (lines f)
           \<and> (\<forall>p < K. source_index (int K) i f p < 0 \<longrightarrow>
                  lines f' ! (trails f ! p) = lines f ! (trails f ! p))
           \<and> (\<forall>a < length (lines f). lines f' ! a \<noteq> lines f ! a \<longrightarrow>
                  a = pt f \<or> (\<exists>p < K. a = trails f ! p \<and> 0 \<le> source_index (int K) i f p))"
proof -
  have n: "length (trails f) = K" using wf by (auto simp: wf_figure_def)
  from update_spec[OF wf i xy] show ?thesis
  proof (elim exE conjE, goal_cases)
    case (1 f')
    note u = 1
    have skip: "\<forall>p < K. source_index (int K) i f p < 0 \<longrightarrow>
                  lines f' ! (trails f ! p) = lines f ! (trails f ! p)"
      using u(6) n by simp
    have only: "\<forall>a < length (lines f). lines f' ! a \<noteq> lines f ! a \<longrightarrow>
                  a = pt f \<or> (\<exists>p < K. a = trails f ! p \<and> 0 \<le> source_index (int K) i f p)"
    proof (intro allI impI)
      fix a assume ne: "lines f' ! a \<noteq> lines f ! a"
      show "a = pt f \<or> (\<exists>p < K. a = trails f ! p \<and> 0 \<le> source_index (int K) i f p)"
      proof (cases "a = pt f")
        case True
        then show ?thesis by simp
      next
        case False
        with ne u(7) have "a \<in> set (trails f)" by blast
        then obtain p where p: "p < K" "a = trails f ! p"
          using n by (auto simp: in_set_conv_nth)
        with ne skip have "0 \<le> source_index (int K) i f p" by force
        with p show ?thesis by blast
      qed
    qed
    from u(1,2,3,4) skip only show ?case by blast
  qed
qed

text \<open>
  After \<^verbatim>\<open>update(3)\<close> both trails hold data; a following \<^verbatim>\<open>update(0)\<close> passes over both,
  and they still hold samples 2 and 1.
\<close>

theorem update_frame_witness:
  "lines (snd (projr (update [0, 1, 0, - 1] [1, 0, - 1, 0] 2 0
       (snd (projr (update [0, 1, 0, - 1] [1, 0, - 1, 0] 2 3 (projr (create_markers 2)))))))) ! 1 =
     (trail_line 1)\<lparr>xdata := [0], ydata := [- 1]\<rparr>
   \<and> lines (snd (projr (update [0, 1, 0, - 1] [1, 0, - 1, 0] 2 0
       (snd (projr (update [0, 1, 0, - 1] [1, 0, - 1, 0] 2 3 (projr (create_markers 2)))))))) ! 2 =
     (trail_line 0)\<lparr>xdata := [1], ydata := [0]\<rparr>
   \<and> length (lines (snd (projr (update [0, 1, 0, - 1] [1, 0, - 1, 0] 2 0
       (snd (projr (update [0, 1, 0, - 1] [1, 0, - 1, 0] 2 3 (projr (create_markers 2))))))))) = 3"
proof -
  let ?f = "\<lparr>lines = [head_line\<lparr>xdata := [- 1], ydata := [0]\<rparr>,
                   (trail_line 1)\<lparr>xdata := [0], ydata := [- 1]\<rparr>,
                   (trail_line 0)\<lparr>xdata := [1], ydata := [0]\<rparr>],
           pt = 0, trails = [1, 2]\<rparr>"
  have f: "snd (projr (update [0, 1, 0, - 1] [1, 0, - 1, 0] 2 3 (projr (create_markers 2)))) = ?f"
    by (simp add: example_update_3)
  have wf: "wf_figure (int 2) ?f" by (simp add: wf_figure_def)
  have h: "length [1, 0, - 1, 0 :: real] = length [0, 1, 0, - 1 :: real]"
    "(0::int) \<le> 0" "(0::int) < int (length [0, 1, 0, - 1 :: real])" by simp_all
  from update_frame[OF wf h] show ?thesis
  proof (elim exE conjE, goal_cases)
    case (1 f')
    have s: "snd (projr (update [0, 1, 0, - 1] [1, 0, - 1, 0] 2 0 ?f)) = f'"
      using 1(1) by simp
    have s1: "source_index (int 2) 0 ?f 1 = - 2" and s0: "source_index (int 2) 0 ?f 0 = - 1"
      by (simp_all add: source_index_def)
    have a: "lines f' ! (trails ?f ! 0) = lines ?f ! (trails ?f ! 0)" using 1(5)[rule_format, of 0] s0 by simp
    have b: "lines f' ! (trails ?f ! 1) = lines ?f ! (trails ?f ! 1)" using 1(5)[rule_format, of 1] s1 by simp
    show ?case unfolding f s using a b 1(4) by simp
  qed
qed

subsection \<open>The marker set\<close>

text \<open>
  C10. The script creates \<open>n_trails + 1\<close> artists once: the head first, then the trails
  in the order of their opacities, which are the \<open>n_trails\<close> evenly spaced values from 1
  down to 0 (the single value 1 when there is one trail); the head has no opacity of its
  own. On every well-formed figure, \<^verbatim>\<open>init\<close> and every \<^verbatim>\<open>update(i)\<close> with
  \<open>0 \<le> i < n_frames\<close> return these \<open>n_trails + 1\<close> references, the head first and the trails
  in creation order, and leave the references, the number of artists on the axes and
  every opacity as they were.
\<close>

theorem marker_set_fixed:
  assumes wf: "wf_figure (int K) g" and xy: "length y = length x"
    and i: "0 \<le> i" "i < int (length x)"
  shows "(\<exists>f alphas. create_markers (int K) = Inr f \<and> linspace 1 0 (int K) = Inr alphas
            \<and> wf_figure (int K) f \<and> length (lines f) = K + 1
            \<and> pt f = 0 \<and> trails f = [1..<K + 1]
            \<and> alpha (lines f ! pt f) = None \<and> map alpha (trail_slots f) = map Some alphas
            \<and> length alphas = K
            \<and> (\<forall>k < K. alphas ! k = (if 1 < K then 1 - real k / real (K - 1) else 1)))
         \<and> length (pt g # trails g) = K + 1
         \<and> (\<exists>g'. init g = (pt g # trails g, g')
              \<and> pt g' = pt g \<and> trails g' = trails g \<and> length (lines g') = length (lines g)
              \<and> map alpha (lines g') = map alpha (lines g))
         \<and> (\<exists>g'. update x y (int K) i g = Inr (pt g # trails g, g')
              \<and> pt g' = pt g \<and> trails g' = trails g \<and> length (lines g') = length (lines g)
              \<and> map alpha (lines g') = map alpha (lines g))"
proof (intro conjI)
  let ?as = "map (\<lambda>k. 1 + real k * (if 0 < K - 1 then (0 - 1) / real (K - 1) else 0 - 1)) [0..<K]"
  let ?f = "\<lparr>lines = head_line # map trail_line ?as, pt = 0, trails = [1..<Suc K]\<rparr>"
  have c: "create_markers (int K) = Inr ?f" by (rule create_markers_spec)
  have l: "linspace 1 0 (int K) = Inr ?as" by (rule linspace_spec)
  have nth: "\<forall>k < K. ?as ! k = (if 1 < K then 1 - real k / real (K - 1) else 1)"
  proof (intro allI impI)
    fix k assume k: "k < K"
    show "?as ! k = (if 1 < K then 1 - real k / real (K - 1) else 1)"
    proof (cases "1 < K")
      case True
      then show ?thesis using k by (simp add: divide_inverse)
    next
      case False
      then have "k = 0" using k by simp
      then show ?thesis using False k by simp
    qed
  qed
  show "\<exists>f alphas. create_markers (int K) = Inr f \<and> linspace 1 0 (int K) = Inr alphas
            \<and> wf_figure (int K) f \<and> length (lines f) = K + 1
            \<and> pt f = 0 \<and> trails f = [1..<K + 1]
            \<and> alpha (lines f ! pt f) = None \<and> map alpha (trail_slots f) = map Some alphas
            \<and> length alphas = K
            \<and> (\<forall>k < K. alphas ! k = (if 1 < K then 1 - real k / real (K - 1) else 1))"
  proof (intro exI conjI)
    show "create_markers (int K) = Inr ?f" by (rule c)
    show "linspace 1 0 (int K) = Inr ?as" by (rule l)
    show "wf_figure (int K) ?f" using c by (rule wf_create_markers)
    show "length (lines ?f) = K + 1" by simp
    show "pt ?f = 0" by simp
    show "trails ?f = [1..<K + 1]" by simp
    show "alpha (lines ?f ! pt ?f) = None" by (simp add: head_line_def)
    show "map alpha (trail_slots ?f) = map Some ?as" using c l by (rule create_markers_slots)
    show "length ?as = K" by simp
    show "\<forall>k < K. ?as ! k = (if 1 < K then 1 - real k / real (K - 1) else 1)" by (rule nth)
  qed
next
  show "length (pt g # trails g) = K + 1" using wf by (auto simp: wf_figure_def)
next
  from init_spec[of g] show "\<exists>g'. init g = (pt g # trails g, g')
              \<and> pt g' = pt g \<and> trails g' = trails g \<and> length (lines g') = length (lines g)
              \<and> map alpha (lines g') = map alpha (lines g)"
  proof (elim exE conjE, goal_cases)
    case (1 g')
    have "map alpha (lines g') = map alpha (lines g)" using alpha_init[of g] 1(1) by simp
    with 1(1,2,3,4) show ?case by blast
  qed
next
  from update_spec[OF wf i xy] show "\<exists>g'. update x y (int K) i g = Inr (pt g # trails g, g')
              \<and> pt g' = pt g \<and> trails g' = trails g \<and> length (lines g') = length (lines g)
              \<and> map alpha (lines g') = map alpha (lines g)"
  proof (elim exE conjE, goal_cases)
    case (1 g')
    have "map alpha (lines g') = map alpha (lines g)" using 1(1) by (rule alpha_update)
    with 1(1,2,3,4) show ?case by blast
  qed
qed

text \<open>Two trails: three artists, opacities 1 and 0, before and after a call.\<close>

theorem marker_set_fixed_witness:
  "length (lines (projr (create_markers 2))) = 3
   \<and> map alpha (trail_slots (projr (create_markers 2))) = [Some 1, Some 0]
   \<and> fst (init (projr (create_markers 2))) = [0, 1, 2]
   \<and> length (lines (snd (init (projr (create_markers 2))))) = 3
   \<and> fst (projr (update [0, 1, 0, - 1] [1, 0, - 1, 0] 2 1 (projr (create_markers 2)))) = [0, 1, 2]
   \<and> map alpha (lines (snd (projr (update [0, 1, 0, - 1] [1, 0, - 1, 0] 2 1
         (projr (create_markers 2)))))) = [None, Some 1, Some 0]"
proof -
  let ?g = "projr (create_markers 2)"
  have h: "length [1, 0, - 1, 0 :: real] = length [0, 1, 0, - 1 :: real]"
    "(0::int) \<le> 1" "(1::int) < int (length [0, 1, 0, - 1 :: real])" by simp_all
  have t: "pt ?g # trails ?g = [0, 1, 2]" "length (lines ?g) = 3"
    "map alpha (lines ?g) = [None, Some 1, Some 0]"
    by (simp_all add: create_markers_2 head_line_def trail_line_def)
  from marker_set_fixed[OF wf_example h] show ?thesis
  proof (elim exE conjE, goal_cases)
    case (1 f alphas g' g'')
    have f: "f = ?g" using \<open>create_markers (int 2) = Inr f\<close> by simp
    have a: "alphas = [1, 0]" using \<open>linspace 1 0 (int 2) = Inr alphas\<close> by (simp add: linspace_1_0_2)
    have c1: "map alpha (trail_slots ?g) = [Some 1, Some 0]"
      using \<open>map alpha (trail_slots f) = map Some alphas\<close> unfolding f a by simp
    have c2: "fst (init ?g) = [0, 1, 2]" "length (lines (snd (init ?g))) = 3"
      using \<open>init ?g = (pt ?g # trails ?g, g')\<close> \<open>length (lines g') = length (lines ?g)\<close> t by simp_all
    have c3: "fst (projr (update [0, 1, 0, - 1] [1, 0, - 1, 0] 2 1 ?g)) = [0, 1, 2]"
      "map alpha (lines (snd (projr (update [0, 1, 0, - 1] [1, 0, - 1, 0] 2 1 ?g)))) =
        [None, Some 1, Some 0]"
      using \<open>update [0, 1, 0, - 1] [1, 0, - 1, 0] (int 2) 1 ?g = Inr (pt ?g # trails ?g, g'')\<close>
        \<open>map alpha (lines g'') = map alpha (lines ?g)\<close> t by simp_all
    show ?case using t(2) c1 c2 c3 by (intro conjI)
  qed
qed

end
